theory Spec2Isabelle
  imports Complex_Main "HOL-Library.Multiset" "HOL-Library.Sublist"
begin

section \<open>JavaScript values used by the expense pipeline\<close>

text \<open>
  A string is a list of code units, and the type \<open>char\<close> holds the code units from
  U+0000 to U+00FF: the text of a string is read as ISO 8859-1, and texts with other
  code units are not covered. A number is an IEEE double: a finite one is given by
  its rational value, and the three values that are not finite are kept, because the
  source divides without a guard. Sums, products and quotients are rounded to the
  nearest double, ties to the even one, and overflow to an infinity. The sign of zero is
  not modelled.
\<close>

datatype js_error = TypeError

datatype number = Fin rat | NaN | PosInf | NegInf

definition isFinite :: "number \<Rightarrow> bool" where
  "isFinite x = (case x of Fin _ \<Rightarrow> True | _ \<Rightarrow> False)"

definition fin_val :: "number \<Rightarrow> rat" where
  "fin_val x = (case x of Fin q \<Rightarrow> q | _ \<Rightarrow> 0)"

definition inf_of_sign :: "bool \<Rightarrow> number" where
  "inf_of_sign neg = (if neg then NegInf else PosInf)"

subsection \<open>Rounding to a double\<close>

function bit_length :: "int \<Rightarrow> nat" where
  "bit_length n = (if n \<le> 0 then 0 else Suc (bit_length (n div 2)))"
  by pat_completeness auto
termination
  by (relation "measure nat") auto

declare bit_length.simps [simp del]

definition pow2 :: "int \<Rightarrow> rat" where
  "pow2 k = (if 0 \<le> k then 2 ^ nat k else 1 / 2 ^ nat (- k))"

text \<open>For a positive \<open>a\<close>, the exponent \<open>e\<close> with \<open>2^e \<le> a < 2^(e+1)\<close>.\<close>

definition binary_exponent :: "rat \<Rightarrow> int" where
  "binary_exponent a =
     (let k = int (bit_length (fst (quotient_of a))) - int (bit_length (snd (quotient_of a)))
      in if pow2 k \<le> a then k else k - 1)"

definition round_half_even :: "rat \<Rightarrow> int" where
  "round_half_even x =
     (let f = \<lfloor>x\<rfloor>; r = x - of_int f
      in if r < 1 / 2 then f else if 1 / 2 < r then f + 1 else if even f then f else f + 1)"

text \<open>
  The double nearest to a rational: 53 significant bits, so the rational is rounded to
  a multiple \<open>m\<close> of the spacing \<open>u\<close> at its exponent; the smallest exponent is \<open>-1022\<close>
  (below it the spacing stays \<open>2^-1074\<close>); the result is an infinity when it reaches
  \<open>2^1024\<close>, that is beyond the exponent 1023 or at it with \<open>m = 2^53\<close>.
\<close>

definition round_double :: "rat \<Rightarrow> number" where
  "round_double q =
     (if q = 0 then Fin 0
      else (let a = \<bar>q\<bar>;
                e = max (binary_exponent a) (- 1022);
                u = pow2 (e - 52);
                m = round_half_even (a / u)
            in if 1023 < e \<or> (e = 1023 \<and> m = 9007199254740992) then inf_of_sign (q < 0)
               else Fin (if q < 0 then - (of_int m * u) else of_int m * u)))"

subsection \<open>Arithmetic and comparison\<close>

fun js_add :: "number \<Rightarrow> number \<Rightarrow> number" where
  "js_add (Fin a) (Fin b) = round_double (a + b)"
| "js_add NaN _ = NaN"
| "js_add _ NaN = NaN"
| "js_add PosInf NegInf = NaN"
| "js_add NegInf PosInf = NaN"
| "js_add PosInf _ = PosInf"
| "js_add _ PosInf = PosInf"
| "js_add NegInf _ = NegInf"
| "js_add _ NegInf = NegInf"

fun js_mul :: "number \<Rightarrow> number \<Rightarrow> number" where
  "js_mul (Fin a) (Fin b) = round_double (a * b)"
| "js_mul NaN _ = NaN"
| "js_mul _ NaN = NaN"
| "js_mul (Fin a) PosInf = (if a = 0 then NaN else inf_of_sign (a < 0))"
| "js_mul (Fin a) NegInf = (if a = 0 then NaN else inf_of_sign (0 < a))"
| "js_mul PosInf (Fin b) = (if b = 0 then NaN else inf_of_sign (b < 0))"
| "js_mul NegInf (Fin b) = (if b = 0 then NaN else inf_of_sign (0 < b))"
| "js_mul PosInf PosInf = PosInf"
| "js_mul NegInf NegInf = PosInf"
| "js_mul PosInf NegInf = NegInf"
| "js_mul NegInf PosInf = NegInf"

fun js_div :: "number \<Rightarrow> number \<Rightarrow> number" where
  "js_div (Fin a) (Fin b) =
     (if b = 0 then (if a = 0 then NaN else inf_of_sign (a < 0)) else round_double (a / b))"
| "js_div NaN _ = NaN"
| "js_div _ NaN = NaN"
| "js_div (Fin a) PosInf = Fin 0"
| "js_div (Fin a) NegInf = Fin 0"
| "js_div PosInf (Fin b) = inf_of_sign (b < 0)"
| "js_div NegInf (Fin b) = inf_of_sign (0 \<le> b)"
| "js_div PosInf PosInf = NaN"
| "js_div PosInf NegInf = NaN"
| "js_div NegInf PosInf = NaN"
| "js_div NegInf NegInf = NaN"

text \<open>\<open>a > b\<close> on numbers: false as soon as one side is NaN.\<close>

fun js_gt :: "number \<Rightarrow> number \<Rightarrow> bool" where
  "js_gt (Fin a) (Fin b) = (b < a)"
| "js_gt NaN _ = False"
| "js_gt _ NaN = False"
| "js_gt PosInf b = (b \<noteq> PosInf)"
| "js_gt NegInf _ = False"
| "js_gt (Fin a) PosInf = False"
| "js_gt (Fin a) NegInf = True"

subsection \<open>Characters and strings\<close>

definition upper_letters :: string where
  "upper_letters = ''ABCDEFGHIJKLMNOPQRSTUVWXYZ''"

definition lower_letters :: string where
  "lower_letters = ''abcdefghijklmnopqrstuvwxyz''"

text \<open>
  The capital letters from U+00C0 to U+00DE (all but the multiplication sign) and their
  small letters, 32 code units further up.
\<close>

definition latin1_upper :: string where
  "latin1_upper =
     [
      CHR 0xC0, CHR 0xC1, CHR 0xC2, CHR 0xC3, CHR 0xC4, CHR 0xC5, CHR 0xC6, CHR 0xC7,
      CHR 0xC8, CHR 0xC9, CHR 0xCA, CHR 0xCB, CHR 0xCC, CHR 0xCD, CHR 0xCE, CHR 0xCF,
      CHR 0xD0, CHR 0xD1, CHR 0xD2, CHR 0xD3, CHR 0xD4, CHR 0xD5, CHR 0xD6, CHR 0xD8,
      CHR 0xD9, CHR 0xDA, CHR 0xDB, CHR 0xDC, CHR 0xDD, CHR 0xDE]"

definition latin1_lower :: string where
  "latin1_lower =
     [
      CHR 0xE0, CHR 0xE1, CHR 0xE2, CHR 0xE3, CHR 0xE4, CHR 0xE5, CHR 0xE6, CHR 0xE7,
      CHR 0xE8, CHR 0xE9, CHR 0xEA, CHR 0xEB, CHR 0xEC, CHR 0xED, CHR 0xEE, CHR 0xEF,
      CHR 0xF0, CHR 0xF1, CHR 0xF2, CHR 0xF3, CHR 0xF4, CHR 0xF5, CHR 0xF6, CHR 0xF8,
      CHR 0xF9, CHR 0xFA, CHR 0xFB, CHR 0xFC, CHR 0xFD, CHR 0xFE]"

text \<open>\<open>toLowerCase\<close> on one code unit; every other code unit below U+0100 is kept.\<close>

definition toLowerCase_char :: "char \<Rightarrow> char" where
  "toLowerCase_char c =
     (case map_of (zip (upper_letters @ latin1_upper) (lower_letters @ latin1_lower)) c of
        Some l \<Rightarrow> l | None \<Rightarrow> c)"

text \<open>
  \<open>toUpperCase\<close> on an ASCII code unit. The source applies it to the first character of
  a run of word characters, and the patterns compare their ASCII letters after it; a
  code unit outside ASCII never becomes an ASCII letter by it.
\<close>

definition toUpperCase_char :: "char \<Rightarrow> char" where
  "toUpperCase_char c =
     (case map_of (zip lower_letters upper_letters) c of Some u \<Rightarrow> u | None \<Rightarrow> c)"

definition toLowerCase :: "string \<Rightarrow> string" where
  "toLowerCase s = map toLowerCase_char s"

definition is_letter :: "char \<Rightarrow> bool" where
  "is_letter c = (c \<in> set upper_letters \<or> c \<in> set lower_letters)"

text \<open>\<open>\w\<close> of a regular expression: ASCII letters, digits and the underscore.\<close>

definition is_word_char :: "char \<Rightarrow> bool" where
  "is_word_char c = (is_letter c \<or> c \<in> set ''0123456789_'')"

text \<open>
  White space as \<open>\s\<close> and \<open>trim\<close> see it, below U+0100: tab, line feed, vertical tab,
  form feed, carriage return, space and the no-break space.
\<close>

definition is_space :: "char \<Rightarrow> bool" where
  "is_space c =
     (c \<in> set [CHR 0x09, CHR 0x0A, CHR 0x0B, CHR 0x0C, CHR 0x0D, CHR 0x20, CHR 0xA0])"

definition trim :: "string \<Rightarrow> string" where
  "trim s = rev (dropWhile is_space (rev (dropWhile is_space s)))"

text \<open>\<open>s.includes(k)\<close>: \<open>k\<close> occurs in \<open>s\<close> as a contiguous run.\<close>

fun str_includes :: "string \<Rightarrow> string \<Rightarrow> bool" where
  "str_includes [] k = (k = [])"
| "str_includes (c # cs) k = (take (length k) (c # cs) = k \<or> str_includes cs k)"

text \<open>\<open>xs.join(sep)\<close> on an array of strings.\<close>

fun join :: "string \<Rightarrow> string list \<Rightarrow> string" where
  "join sep [] = []"
| "join sep [x] = x"
| "join sep (x # y # ys) = x @ sep @ join sep (y # ys)"

text \<open>\<open>s.split('T')[0]\<close>: the text before the first \<open>T\<close>, the whole text when there is none.\<close>

definition before_T :: "string \<Rightarrow> string" where
  "before_T s = takeWhile (\<lambda>c. c \<noteq> CHR ''T'') s"

text \<open>The decimal digits of a natural number, as a template literal prints an id.\<close>

fun digits :: "nat \<Rightarrow> string" where
  "digits n = (if n < 10 then [''0123456789'' ! n]
               else digits (n div 10) @ [''0123456789'' ! (n mod 10)])"

declare digits.simps [simp del]

text \<open>
  \<open>x.toFixed(1)\<close>. A non-finite number prints as its name. Otherwise the sign is split off,
  \<open>n\<close> is the integer nearest to ten times the magnitude (the larger one on a tie), and its
  digits are printed with a point before the last one, padded to \<open>0.d\<close>. From \<open>10^21\<close> on the
  source switches to exponent notation, which this model leaves out: the result is
  \<open>None\<close> there.
\<close>

definition toFixed1 :: "number \<Rightarrow> string option" where
  "toFixed1 x =
     (case x of
        NaN \<Rightarrow> Some ''NaN''
      | PosInf \<Rightarrow> Some ''Infinity''
      | NegInf \<Rightarrow> Some ''-Infinity''
      | Fin q \<Rightarrow>
          (let s = (if q < 0 then ''-'' else '''');
               a = \<bar>q\<bar>
           in if 10 ^ 21 \<le> a then None
              else (let n = nat \<lfloor>a * 10 + 1 / 2\<rfloor>;
                        m = digits n;
                        m' = (if length m \<le> 1 then replicate (2 - length m) CHR ''0'' @ m else m);
                        k = length m'
                    in Some (s @ take (k - 1) m' @ ''.'' @ drop (k - 1) m'))))"

section \<open>Data model\<close>

text \<open>
  The interfaces of the backend service and of the frontend types. A field the source
  tests for presence is an \<open>option\<close>; fields no function of this development reads
  (\<open>processing_time\<close>, \<open>status\<close>, \<open>user_id\<close>, \<open>message\<close>) are left out.
\<close>

record BackendSplit =
  participant :: string
  split_amount :: number

record BackendLineItem =
  description :: string
  amount :: number
  category :: "string option"
  allocation_text :: string
  splits :: "BackendSplit list option"

datatype expense_kind = personal | shared

record BackendExpenseResult =
  participants :: "string list option"
  clean_participants :: "string list option"
  is_shared :: "bool option"
  expense_type :: "expense_kind option"
  line_items :: "BackendLineItem list option"
  total_amount :: number

record BackendExpense =
  backend_id :: nat
  original_text :: string
  parsed_data :: BackendExpenseResult
  created_at :: string

record ParseExpenseResponse =
  document_id :: nat
  resp_participants :: "string list option"
  resp_clean_participants :: "string list option"
  resp_is_shared :: "bool option"
  resp_expense_type :: "expense_kind option"
  resp_line_items :: "BackendLineItem list option"
  resp_total_amount :: number

record LineItem =
  item_description :: string
  price :: number
  item_category :: "string option"

record SharedDetails =
  details_members :: "string list"
  paidBy :: string

record SharedSpace =
  space_id :: string
  space_name :: string
  space_members :: "string list"

record BackendData =
  data_line_items :: "BackendLineItem list"
  data_participants :: "string list option"
  data_clean_participants :: "string list"

record Expense =
  expense_id :: string
  vendorName :: string
  transactionDate :: string
  totalAmount :: number
  expense_category :: string
  lineItems :: "LineItem list"
  etype :: expense_kind
  sharedSpaceId :: "string option"
  sharedDetails :: "SharedDetails option"
  members :: "string list option"
  backendData :: "BackendData option"

section \<open>Categorizer\<close>

text \<open>\<open>categorizeExpense\<close>: the chain of tests of the source, in its order.\<close>

definition categorizeExpense :: "BackendLineItem list \<Rightarrow> string" where
  "categorizeExpense items =
     (let descriptions = join '' '' (map (\<lambda>item. toLowerCase (description item)) items)
      in if str_includes descriptions ''food'' \<or> str_includes descriptions ''restaurant''
            \<or> str_includes descriptions ''cafe'' then ''Dining''
         else if str_includes descriptions ''grocery''
            \<or> str_includes descriptions ''supermarket'' then ''Groceries''
         else if str_includes descriptions ''fuel'' \<or> str_includes descriptions ''gas''
            \<or> str_includes descriptions ''petrol'' then ''Transport''
         else if str_includes descriptions ''electronics''
            \<or> str_includes descriptions ''phone''
            \<or> str_includes descriptions ''laptop'' then ''Electronics''
         else if str_includes descriptions ''clothes''
            \<or> str_includes descriptions ''shopping'' then ''Shopping''
         else if str_includes descriptions ''utility''
            \<or> str_includes descriptions ''electricity''
            \<or> str_includes descriptions ''water'' then ''Utilities''
         else ''Other'')"

text \<open>
  The Categorizer as the specification words it, written without the helpers of the
  source: every description is case-folded code unit by code unit, the descriptions are
  put one after the other into one search string with a single space between two of
  them, and the first row of the ordered table with a keyword that is a contiguous part
  of the search string gives the category.
\<close>

definition fold_case :: "char \<Rightarrow> char" where
  "fold_case c =
     (let n = (of_char c :: nat)
      in if (65 \<le> n \<and> n \<le> 90) \<or> (192 \<le> n \<and> n \<le> 222 \<and> n \<noteq> 215)
         then char_of (n + 32) else c)"

definition search_string :: "string list \<Rightarrow> string" where
  "search_string descs = tl (concat (map (\<lambda>d. CHR '' '' # map fold_case d) descs))"

definition category_table :: "(string \<times> string list) list" where
  "category_table =
     [(''Dining'', [''food'', ''restaurant'', ''cafe'']),
      (''Groceries'', [''grocery'', ''supermarket'']),
      (''Transport'', [''fuel'', ''gas'', ''petrol'']),
      (''Electronics'', [''electronics'', ''phone'', ''laptop'']),
      (''Shopping'', [''clothes'', ''shopping'']),
      (''Utilities'', [''utility'', ''electricity'', ''water''])]"

definition categorize_table :: "string list \<Rightarrow> string" where
  "categorize_table descs =
     (case find (\<lambda>row. \<exists>keyword \<in> set (snd row). sublist keyword (search_string descs))
             category_table of
        Some row \<Rightarrow> fst row
      | None \<Rightarrow> ''Other'')"

section \<open>VendorExtractor\<close>

text \<open>
  \<open>capitalizeWords\<close> replaces every match of \<open>/\b\w+/g\<close>, that is every maximal run of
  word characters, by its first character in upper case followed by the rest in lower
  case; everything between the runs is copied.
\<close>

function capitalizeWords :: "string \<Rightarrow> string" where
  "capitalizeWords [] = []"
| "capitalizeWords (c # cs) =
     (if is_word_char c
      then toUpperCase_char c # map toLowerCase_char (takeWhile is_word_char cs)
             @ capitalizeWords (dropWhile is_word_char cs)
      else c # capitalizeWords cs)"
  by pat_completeness auto
termination
  by (relation "measure length") (auto simp: length_dropWhile_le less_Suc_eq_le)

subsection \<open>The regular expressions of the vendor patterns\<close>

text \<open>
  The fragment of regular expressions the four patterns use, all under the flag \<open>i\<close>:
  a literal character (compared after case mapping), \<open>\s\<close>, the class \<open>[A-Za-z\s]\<close>,
  the dot (any character but a line terminator), sequence, alternation, the greedy \<open>+\<close>
  and the lazy \<open>+?\<close> and \<open>*?\<close> on a character class, the capture group and \<open>$\<close>.
\<close>

datatype cclass = Lit char | Space | AlphaSpace | AnyChar

fun in_class :: "cclass \<Rightarrow> char \<Rightarrow> bool" where
  "in_class (Lit c) x = (toUpperCase_char x = toUpperCase_char c)"
| "in_class Space x = is_space x"
| "in_class AlphaSpace x = (is_letter x \<or> is_space x)"
| "in_class AnyChar x = (x \<noteq> CHR 0x0A \<and> x \<noteq> CHR 0x0D)"

datatype re =
    Eps
  | Chr cclass
  | Seq re re
  | Alt re re
  | Plus cclass
  | PlusLazy cclass
  | StarLazy cclass
  | Group re
  | EndAnchor

text \<open>
  A backtracking matcher tries the alternatives of a pattern in a fixed order and keeps
  the first that lets the rest of the pattern succeed. \<open>run r s\<close> lists, in that order,
  every way \<open>r\<close> matches at the start of \<open>s\<close>: the input left over and the text of the
  capture group, if the group took part. The head of the list is the match the engine
  reports.
\<close>

fun run :: "re \<Rightarrow> string \<Rightarrow> (string \<times> string option) list" where
  "run Eps s = [(s, None)]"
| "run (Chr k) s =
     (case s of [] \<Rightarrow> [] | c # cs \<Rightarrow> (if in_class k c then [(cs, None)] else []))"
| "run (Seq a b) s =
     concat (map (\<lambda>(s1, g1).
        map (\<lambda>(s2, g2). (s2, (case g2 of None \<Rightarrow> g1 | Some t \<Rightarrow> Some t))) (run b s1)) (run a s))"
| "run (Alt a b) s = run a s @ run b s"
| "run (Plus k) s =
     map (\<lambda>n. (drop n s, None)) (rev [1 ..< Suc (length (takeWhile (in_class k) s))])"
| "run (PlusLazy k) s =
     map (\<lambda>n. (drop n s, None)) [1 ..< Suc (length (takeWhile (in_class k) s))]"
| "run (StarLazy k) s =
     map (\<lambda>n. (drop n s, None)) [0 ..< Suc (length (takeWhile (in_class k) s))]"
| "run (Group a) s =
     map (\<lambda>(s1, g). (s1, Some (take (length s - length s1) s))) (run a s)"
| "run EndAnchor s = (if s = [] then [([], None)] else [])"

text \<open>
  \<open>text.match(pattern)\<close> without the flag \<open>g\<close>: the match at the leftmost position where
  the pattern matches at all. The result is \<open>None\<close> for \<open>null\<close>, and otherwise the value
  of \<open>match[1]\<close>.
\<close>

fun match_first :: "re \<Rightarrow> string \<Rightarrow> string option option" where
  "match_first r [] = (case run r [] of [] \<Rightarrow> None | x # _ \<Rightarrow> Some (snd x))"
| "match_first r (c # cs) =
     (case run r (c # cs) of [] \<Rightarrow> match_first r cs | x # _ \<Rightarrow> Some (snd x))"

fun lit :: "string \<Rightarrow> re" where
  "lit [] = Eps"
| "lit (c # cs) = Seq (Chr (Lit c)) (lit cs)"

text \<open>\<open>(?:\s+with|\s+for|\s+yesterday|\s+today|\.|$)\<close>\<close>

definition terminator :: re where
  "terminator =
     Alt (Seq (Plus Space) (lit ''with''))
    (Alt (Seq (Plus Space) (lit ''for''))
    (Alt (Seq (Plus Space) (lit ''yesterday''))
    (Alt (Seq (Plus Space) (lit ''today''))
    (Alt (Chr (Lit CHR ''.'')) EndAnchor))))"

text \<open>\<open>([A-Za-z\s]+?)\<close> followed by the terminator.\<close>

definition vendor_tail :: re where
  "vendor_tail = Seq (Group (PlusLazy AlphaSpace)) terminator"

definition vendorPatterns :: "re list" where
  "vendorPatterns =
     [Seq (lit ''at'') (Seq (Plus Space) vendor_tail),
      Seq (lit ''went'') (Seq (Plus Space) (Seq (lit ''to'') (Seq (Plus Space) vendor_tail))),
      Seq (lit ''from'') (Seq (Plus Space) vendor_tail),
      Seq (lit ''bought'') (Seq (StarLazy AnyChar)
        (Seq (lit ''from'') (Seq (Plus Space) vendor_tail)))]"

text \<open>The loop over the patterns: the first accepted vendor is returned at once.\<close>

fun firstVendor :: "re list \<Rightarrow> string \<Rightarrow> string option" where
  "firstVendor [] originalText = None"
| "firstVendor (pattern # rest) originalText =
     (case match_first pattern originalText of
        Some (Some m1) \<Rightarrow>
          (if m1 \<noteq> []
           then (let vendor = trim m1
                 in if length vendor > 2 \<and> length vendor < 50
                    then Some (capitalizeWords vendor)
                    else firstVendor rest originalText)
           else firstVendor rest originalText)
      | _ \<Rightarrow> firstVendor rest originalText)"

text \<open>
  \<open>lineItems.reduce((max, item) => item.amount > max.amount ? item : max, lineItems[0])\<close>
\<close>

definition primaryItem :: "BackendLineItem \<Rightarrow> BackendLineItem list \<Rightarrow> BackendLineItem" where
  "primaryItem first items =
     foldl (\<lambda>max item. if js_gt (amount item) (amount max) then item else max) first items"

definition vendorFallback :: "BackendLineItem list \<Rightarrow> string" where
  "vendorFallback items =
     (case items of
        [] \<Rightarrow> ''Expense''
      | first # _ \<Rightarrow>
          (let desc = description (primaryItem first items)
           in if length desc < 30 then capitalizeWords desc else ''Expense''))"

text \<open>
  \<open>lineItems\<close> is only read when no pattern gave a vendor; reading the length of an absent
  array is a TypeError.
\<close>

definition extractVendorName :: "string \<Rightarrow> BackendLineItem list option \<Rightarrow> js_error + string" where
  "extractVendorName originalText items =
     (case firstVendor vendorPatterns originalText of
        Some vendor \<Rightarrow> Inr vendor
      | None \<Rightarrow>
          (case items of
             None \<Rightarrow> Inl TypeError
           | Some line_items_array \<Rightarrow> Inr (vendorFallback line_items_array)))"

section \<open>Canonicalizer\<close>

text \<open>
  The filter of the raw participants: an empty name and the names \<open>me\<close>, \<open>myself\<close> and
  \<open>i\<close>, in any letter case, are dropped.
\<close>

definition not_self :: "string \<Rightarrow> bool" where
  "not_self p = (p \<noteq> [] \<and> toLowerCase p \<noteq> ''me'' \<and> toLowerCase p \<noteq> ''myself''
                 \<and> toLowerCase p \<noteq> ''i'')"

text \<open>
  \<open>clean_participants || participants.filter(...)\<close>: an array is truthy, also when empty;
  the filter is called on \<open>participants\<close> only when \<open>clean_participants\<close> is absent, and
  fails with a TypeError when \<open>participants\<close> is absent too.
\<close>

definition cleanParticipantsOf ::
  "string list option \<Rightarrow> string list option \<Rightarrow> js_error + string list" where
  "cleanParticipantsOf clean raw =
     (case clean of
        Some cs \<Rightarrow> Inr cs
      | None \<Rightarrow> (case raw of None \<Rightarrow> Inl TypeError | Some ps \<Rightarrow> Inr (filter not_self ps)))"

definition convertLineItem :: "BackendLineItem \<Rightarrow> LineItem" where
  "convertLineItem item =
     \<lparr>item_description = description item, price = amount item, item_category = category item\<rparr>"

text \<open>
  \<open>convertBackendExpenseToFrontend\<close>, from the point where \<open>parsed_data\<close> is an object
  (a \<open>parsed_data\<close> stored as text is parsed first). The statements run in the order of
  the source; reading a property of an absent array is a TypeError.
\<close>

definition convertBackendExpenseToFrontend :: "BackendExpense \<Rightarrow> js_error + Expense" where
  "convertBackendExpenseToFrontend backendExpense =
     (let parsedData = parsed_data backendExpense
      in case cleanParticipantsOf (clean_participants parsedData) (participants parsedData) of
           Inl e \<Rightarrow> Inl e
         | Inr cleanParticipants \<Rightarrow>
             (let isShared = (case is_shared parsedData of
                                Some b \<Rightarrow> b
                              | None \<Rightarrow> length cleanParticipants > 0)
              in case extractVendorName (original_text backendExpense) (line_items parsedData) of
                   Inl e \<Rightarrow> Inl e
                 | Inr vendor \<Rightarrow>
                     (case line_items parsedData of
                        None \<Rightarrow> Inl TypeError
                      | Some items \<Rightarrow>
                          (let expense =
                             \<lparr>expense_id = ''backend-'' @ digits (backend_id backendExpense),
                              vendorName = vendor,
                              transactionDate = before_T (created_at backendExpense),
                              totalAmount = total_amount parsedData,
                              expense_category = categorizeExpense items,
                              lineItems = map convertLineItem items,
                              etype = (if isShared then shared else personal),
                              sharedSpaceId = None,
                              sharedDetails = None,
                              members = None,
                              backendData = Some
                                \<lparr>data_line_items = items,
                                 data_participants = participants parsedData,
                                 data_clean_participants = cleanParticipants\<rparr>\<rparr>
                           in Inr (if isShared
                                   then expense
                                     \<lparr>members := Some (''You'' # cleanParticipants),
                                      sharedDetails := Some
                                        \<lparr>details_members = ''You'' # cleanParticipants,
                                         paidBy = ''You''\<rparr>\<rparr>
                                   else expense)))))"

text \<open>
  \<open>parseExpenseFromText\<close> after the response of the parsing service has arrived: the
  response and the time stamp of the call are arguments. \<open>a || b\<close> on an optional boolean
  yields \<open>b\<close> when \<open>a\<close> is absent and also when \<open>a\<close> is \<open>false\<close>.
\<close>

definition parseExpenseFromText ::
  "ParseExpenseResponse \<Rightarrow> string \<Rightarrow> string \<Rightarrow> js_error + Expense" where
  "parseExpenseFromText response text now =
     (case cleanParticipantsOf (resp_clean_participants response) (resp_participants response) of
        Inl e \<Rightarrow> Inl e
      | Inr clean \<Rightarrow>
          convertBackendExpenseToFrontend
            \<lparr>backend_id = document_id response,
             original_text = text,
             parsed_data =
               \<lparr>participants = resp_participants response,
                clean_participants = Some clean,
                is_shared = Some (resp_is_shared response = Some True \<or> length clean > 0),
                expense_type = Some (case resp_expense_type response of
                                       Some t \<Rightarrow> t
                                     | None \<Rightarrow> (if length clean > 0 then shared else personal)),
                line_items = resp_line_items response,
                total_amount = resp_total_amount response\<rparr>,
             created_at = now\<rparr>)"

section \<open>AllocationAggregator\<close>

text \<open>
  \<open>participantTotals\<close> starts as the object literal \<open>{}\<close> and is used as a dictionary.
  Its own properties are an association list in the order in which \<open>Object.entries\<close>
  lists them: the names that are array indices first, by ascending number, then the
  other names in the order of their insertion. An empty object inherits
  the properties of \<open>Object.prototype\<close>: reading one of their names, while it is not an
  own property, yields the inherited value, a function or for \<open>__proto__\<close> the prototype
  itself, and both are truthy. Adding a number to such a value, or to a text, gives a
  text. An assignment to \<open>__proto__\<close> reaches the inherited setter, which ignores
  a value that is a number or a text; an assignment to any other name makes or updates
  an own property.
\<close>

definition inherited_names :: "string list" where
  "inherited_names =
     [''constructor'', ''__defineGetter__'', ''__defineSetter__'', ''hasOwnProperty'',
      ''__lookupGetter__'', ''__lookupSetter__'', ''isPrototypeOf'',
      ''propertyIsEnumerable'', ''toString'', ''valueOf'', ''__proto__'',
      ''toLocaleString'']"

text \<open>
  A text that came from an addition is kept as its parts: the text of the value
  inherited under a name, followed by the texts of the numbers added to it. It is never
  empty.
\<close>

datatype jstext = Inherited string | Append jstext number

datatype jsvalue = Undefined | Num number | Str jstext | Native string

text \<open>\<open>obj[name]\<close>\<close>

definition obj_get :: "(string \<times> jsvalue) list \<Rightarrow> string \<Rightarrow> jsvalue" where
  "obj_get obj name =
     (case map_of obj name of
        Some v \<Rightarrow> v
      | None \<Rightarrow> (if name \<in> set inherited_names then Native name else Undefined))"

text \<open>\<open>x || 0\<close>: undefined, 0 and NaN are falsy.\<close>

fun or_zero :: "jsvalue \<Rightarrow> jsvalue" where
  "or_zero Undefined = Num (Fin 0)"
| "or_zero (Num v) = (if v = Fin 0 \<or> v = NaN then Num (Fin 0) else Num v)"
| "or_zero (Str t) = Str t"
| "or_zero (Native n) = Native n"

text \<open>\<open>x + amount\<close> for a number \<open>amount\<close>.\<close>

fun js_plus :: "jsvalue \<Rightarrow> number \<Rightarrow> jsvalue" where
  "js_plus (Num x) a = Num (js_add x a)"
| "js_plus (Str t) a = Str (Append t a)"
| "js_plus (Native n) a = Str (Append (Inherited n) a)"
| "js_plus Undefined a = Num NaN"

text \<open>
  A name is an array index when it is the decimal numeral, without a leading zero, of a
  number up to \<open>2^32 - 2\<close>.
\<close>

definition decimal_value :: "string \<Rightarrow> int" where
  "decimal_value k =
     foldl (\<lambda>n c. 10 * n + int (length (takeWhile (\<lambda>d. d \<noteq> c) ''0123456789''))) 0 k"

definition array_index :: "string \<Rightarrow> int option" where
  "array_index k =
     (if k \<noteq> [] \<and> list_all (\<lambda>c. c \<in> set ''0123456789'') k
         \<and> (hd k \<noteq> CHR ''0'' \<or> length k = 1)
         \<and> length k \<le> 10 \<and> decimal_value k \<le> 4294967294
      then Some (decimal_value k) else None)"

definition precedes :: "string \<Rightarrow> string \<Rightarrow> bool" where
  "precedes k k' =
     (case array_index k of
        None \<Rightarrow> False
      | Some n \<Rightarrow> (case array_index k' of None \<Rightarrow> True | Some n' \<Rightarrow> n < n'))"

fun obj_update :: "(string \<times> jsvalue) list \<Rightarrow> string \<Rightarrow> jsvalue \<Rightarrow> (string \<times> jsvalue) list" where
  "obj_update [] k v = []"
| "obj_update ((k', v') # kvs) k v =
     (if k' = k then (k', v) # kvs else (k', v') # obj_update kvs k v)"

fun obj_insert :: "(string \<times> jsvalue) list \<Rightarrow> string \<Rightarrow> jsvalue \<Rightarrow> (string \<times> jsvalue) list" where
  "obj_insert [] k v = [(k, v)]"
| "obj_insert ((k', v') # kvs) k v =
     (if precedes k k' then (k, v) # (k', v') # kvs else (k', v') # obj_insert kvs k v)"

text \<open>
  Writing an own property: the value of an existing name is replaced where it stands, a
  new name takes its place in the order.
\<close>

definition obj_set :: "(string \<times> jsvalue) list \<Rightarrow> string \<Rightarrow> jsvalue \<Rightarrow> (string \<times> jsvalue) list" where
  "obj_set obj k v =
     (if k \<in> set (map fst obj) then obj_update obj k v else obj_insert obj k v)"

text \<open>\<open>obj[name] = v\<close> for a value \<open>v\<close> that is a number or a text.\<close>

definition obj_assign ::
  "(string \<times> jsvalue) list \<Rightarrow> string \<Rightarrow> jsvalue \<Rightarrow> (string \<times> jsvalue) list" where
  "obj_assign obj name v = (if name = ''__proto__'' then obj else obj_set obj name v)"

definition addSplit ::
  "(string \<times> jsvalue) list \<Rightarrow> BackendSplit \<Rightarrow> (string \<times> jsvalue) list" where
  "addSplit participantTotals sp =
     (let name = (if participant sp = ''me'' then ''You'' else participant sp)
      in obj_assign participantTotals name
           (js_plus (or_zero (obj_get participantTotals name)) (split_amount sp)))"

definition addItemSplits ::
  "(string \<times> jsvalue) list \<Rightarrow> BackendLineItem \<Rightarrow> (string \<times> jsvalue) list" where
  "addItemSplits participantTotals item =
     (case splits item of
        None \<Rightarrow> participantTotals
      | Some ss \<Rightarrow> (if length ss > 0 then foldl addSplit participantTotals ss
                    else participantTotals))"

definition calculateParticipantTotals :: "BackendLineItem list \<Rightarrow> (string \<times> jsvalue) list" where
  "calculateParticipantTotals lineItemsWithSplits = foldl addItemSplits [] lineItemsWithSplits"

text \<open>\<open>((total / expense.totalAmount) * 100).toFixed(1)\<close>\<close>

definition percentage :: "number \<Rightarrow> number \<Rightarrow> string option" where
  "percentage participantTotal expenseTotal =
     toFixed1 (js_mul (js_div participantTotal expenseTotal) (Fin 100))"

text \<open>
  The sibling computation of the budget bar in the same component:
  \<open>monthlyBudget > 0 ? (thisMonthTotal / monthlyBudget) * 100 : 0\<close>, printed with
  \<open>toFixed(1)\<close>.
\<close>

definition budgetProgress :: "number \<Rightarrow> number \<Rightarrow> number" where
  "budgetProgress thisMonthTotal monthlyBudget =
     (if js_gt monthlyBudget (Fin 0)
      then js_mul (js_div thisMonthTotal monthlyBudget) (Fin 100) else Fin 0)"

subsection \<open>Shared spaces\<close>

text \<open>
  The test of \<open>loadExpenses\<close> for an existing space: the same number of members, and every
  member of the space occurs among the members of the expense.
\<close>

definition same_members :: "string list \<Rightarrow> string list \<Rightarrow> bool" where
  "same_members space_ms expense_ms =
     (length space_ms = length expense_ms \<and> list_all (\<lambda>member. member \<in> set expense_ms) space_ms)"

text \<open>
  One round of the loop of \<open>loadExpenses\<close> over the converted expenses. The state is the
  array \<open>newSharedSpaces\<close> and the number of identifiers drawn so far from
  \<open>crypto.randomUUID\<close>, which is the argument \<open>uuid\<close>. An empty \<open>sharedSpaceId\<close> is falsy.
\<close>

definition addSharedSpace ::
  "(nat \<Rightarrow> string) \<Rightarrow> SharedSpace list \<times> nat \<Rightarrow> Expense \<Rightarrow> SharedSpace list \<times> nat" where
  "addSharedSpace uuid acc expense =
     (let newSharedSpaces = fst acc; drawn = snd acc
      in case members expense of
           None \<Rightarrow> acc
         | Some ms \<Rightarrow>
             (if etype expense = shared
              then (case find (\<lambda>space. same_members (space_members space) ms) newSharedSpaces of
                      Some existingSpace \<Rightarrow> acc
                    | None \<Rightarrow>
                        (let fresh = (case sharedSpaceId expense of
                                        None \<Rightarrow> True | Some sid \<Rightarrow> sid = [])
                         in (newSharedSpaces @
                               [\<lparr>space_id = (if fresh then uuid drawn
                                              else the (sharedSpaceId expense)),
                                 space_name = vendorName expense @ '' Group'',
                                 space_members = ms\<rparr>],
                             if fresh then Suc drawn else drawn)))
              else acc))"

definition groupSharedSpaces :: "(nat \<Rightarrow> string) \<Rightarrow> Expense list \<Rightarrow> SharedSpace list" where
  "groupSharedSpaces uuid backendExpenses = fst (foldl (addSharedSpace uuid) ([], 0) backendExpenses)"

text \<open>The family of member sets of a collection of spaces, and the list it is read from.\<close>

definition member_sets :: "SharedSpace list \<Rightarrow> string set list" where
  "member_sets spaces = map (\<lambda>space. set (space_members space)) spaces"

subsection \<open>A newly parsed receipt\<close>

text \<open>
  The shared spaces and the expenses of the application state, and \<open>handleReceiptParsed\<close>
  with the identifier that \<open>crypto.randomUUID\<close> returns as an argument. Both state updates
  append to the state they find; the view, the loading flag and the error message the
  handler also sets are left out.
\<close>

record app_state =
  app_sharedSpaces :: "SharedSpace list"
  app_expenses :: "Expense list"

definition handleReceiptParsed :: "string \<Rightarrow> Expense \<Rightarrow> app_state \<Rightarrow> app_state" where
  "handleReceiptParsed uuid newExpense st =
     (case members newExpense of
        None \<Rightarrow> st\<lparr>app_expenses := app_expenses st @ [newExpense\<lparr>etype := personal\<rparr>]\<rparr>
      | Some ms \<Rightarrow>
          (if length ms > 1
           then (let newSharedSpace =
                       \<lparr>space_id = uuid,
                        space_name = vendorName newExpense @ '' Bill'',
                        space_members = ms\<rparr>
                 in st\<lparr>app_sharedSpaces := app_sharedSpaces st @ [newSharedSpace],
                       app_expenses := app_expenses st @
                         [newExpense
                            \<lparr>etype := shared,
                             sharedSpaceId := Some (space_id newSharedSpace),
                             sharedDetails :=
                               (case sharedDetails newExpense of
                                  Some d \<Rightarrow> Some d
                                | None \<Rightarrow> Some \<lparr>details_members = space_members newSharedSpace,
                                                 paidBy = ''You''\<rparr>)\<rparr>]\<rparr>)
           else st\<lparr>app_expenses := app_expenses st @ [newExpense\<lparr>etype := personal\<rparr>]\<rparr>))"

section \<open>Notions used to state the properties\<close>

subsection \<open>Vendor extraction\<close>

text \<open>
  What one pattern contributes: the captured text of its leftmost match, trimmed, when
  the trimmed text has more than 2 and fewer than 50 characters.
\<close>

definition accepted_vendor :: "re \<Rightarrow> string \<Rightarrow> string option" where
  "accepted_vendor pattern originalText =
     (case match_first pattern originalText of
        Some (Some m1) \<Rightarrow>
          (let vendor = trim m1
           in if 2 < length vendor \<and> length vendor < 50 then Some vendor else None)
      | _ \<Rightarrow> None)"

text \<open>
  The upper-case form of a code unit that can start a word, by character code; the
  lower-case form is \<open>fold_case\<close>.
\<close>

definition upper_case :: "char \<Rightarrow> char" where
  "upper_case c =
     (let n = (of_char c :: nat) in if 97 \<le> n \<and> n \<le> 122 then char_of (n - 32) else c)"

definition no_NaN :: "BackendLineItem list \<Rightarrow> bool" where
  "no_NaN items = list_all (\<lambda>item. amount item \<noteq> NaN) items"

text \<open>
  Position \<open>k\<close> holds the highest amount of the list, and every earlier position holds a
  strictly smaller one.
\<close>

definition first_highest :: "BackendLineItem list \<Rightarrow> nat \<Rightarrow> bool" where
  "first_highest items k =
     (k < length items
      \<and> (\<forall>j < length items. \<not> js_gt (amount (items ! j)) (amount (items ! k)))
      \<and> (\<forall>j < k. js_gt (amount (items ! k)) (amount (items ! j))))"

subsection \<open>Aggregation\<close>

definition item_splits :: "BackendLineItem \<Rightarrow> BackendSplit list" where
  "item_splits item = (case splits item of None \<Rightarrow> [] | Some ss \<Rightarrow> ss)"

definition all_splits :: "BackendLineItem list \<Rightarrow> BackendSplit list" where
  "all_splits items = concat (map item_splits items)"

definition canonical_name :: "string \<Rightarrow> string" where
  "canonical_name p = (if p = ''me'' then ''You'' else p)"

text \<open>The amounts split off for a name, in the order of the line items and their splits.\<close>

definition amounts_of :: "string \<Rightarrow> BackendLineItem list \<Rightarrow> number list" where
  "amounts_of name items =
     map split_amount
       (filter (\<lambda>sp. canonical_name (participant sp) = name) (all_splits items))"

text \<open>
  The total of a list of amounts as the source runs it: from 0, one rounded addition per
  amount, a total that has become NaN being taken as 0 again.
\<close>

definition running_total :: "number list \<Rightarrow> number" where
  "running_total amounts =
     foldl (\<lambda>t a. js_add (if t = NaN then Fin 0 else t) a) (Fin 0) amounts"

text \<open>No split is for a name the empty object inherits.\<close>

definition plain_names :: "BackendLineItem list \<Rightarrow> bool" where
  "plain_names items =
     list_all (\<lambda>sp. canonical_name (participant sp) \<notin> set inherited_names) (all_splits items)"

text \<open>The sum of the numbers among the values of a dictionary, without rounding.\<close>

definition values_sum :: "(string \<times> jsvalue) list \<Rightarrow> rat" where
  "values_sum totals =
     sum_list (map (\<lambda>kv. case snd kv of Num x \<Rightarrow> fin_val x | _ \<Rightarrow> 0) totals)"

text \<open>The sum of all split amounts of all line items, without rounding.\<close>

definition amounts_sum :: "BackendLineItem list \<Rightarrow> rat" where
  "amounts_sum items = sum_list (map (\<lambda>sp. fin_val (split_amount sp)) (all_splits items))"

text \<open>
  No addition has rounded: every amount is finite, and for every name the running total
  of its amounts is their sum.
\<close>

definition exact_totals :: "BackendLineItem list \<Rightarrow> bool" where
  "exact_totals items =
     (list_all (\<lambda>sp. isFinite (split_amount sp)) (all_splits items)
      \<and> list_all (\<lambda>sp. running_total (amounts_of (canonical_name (participant sp)) items)
                          = Fin (sum_list (map fin_val
                                   (amounts_of (canonical_name (participant sp)) items))))
            (all_splits items))"

subsection \<open>Shared spaces\<close>

text \<open>The member list an expense brings to the grouping, if it takes part in it.\<close>

definition space_target :: "Expense \<Rightarrow> string list option" where
  "space_target expense = (if etype expense = shared then members expense else None)"

text \<open>No member list that takes part in the grouping names a member twice.\<close>

definition duplicate_free :: "Expense list \<Rightarrow> bool" where
  "duplicate_free es =
     list_all (\<lambda>e. case space_target e of None \<Rightarrow> True | Some ms \<Rightarrow> distinct ms) es"

definition spaces_inv :: "SharedSpace list \<Rightarrow> bool" where
  "spaces_inv sp = ((\<forall>s \<in> set sp. distinct (space_members s)) \<and> distinct (member_sets sp))"

section \<open>Example inputs\<close>

text \<open>A line item with a description and splits, and nothing else of interest.\<close>

definition item_with :: "string \<Rightarrow> number \<Rightarrow> BackendSplit list \<Rightarrow> BackendLineItem" where
  "item_with d a ss =
     \<lparr>description = d, amount = a, category = None, allocation_text = [], splits = Some ss\<rparr>"

definition raw_parse ::
  "string list option \<Rightarrow> bool option \<Rightarrow> BackendLineItem list option \<Rightarrow> number
     \<Rightarrow> BackendExpenseResult" where
  "raw_parse clean sh items tot =
     \<lparr>participants = Some [], clean_participants = clean, is_shared = sh, expense_type = None,
      line_items = items, total_amount = tot\<rparr>"

definition stored_expense :: "BackendExpenseResult \<Rightarrow> BackendExpense" where
  "stored_expense pd =
     \<lparr>backend_id = 7, original_text = ''Chai'', parsed_data = pd,
      created_at = ''2025-07-26T10:15:00''\<rparr>"

definition response_with :: "string list option \<Rightarrow> bool option \<Rightarrow> ParseExpenseResponse" where
  "response_with clean sh =
     \<lparr>document_id = 7, resp_participants = Some [], resp_clean_participants = clean,
      resp_is_shared = sh, resp_expense_type = None, resp_line_items = Some [],
      resp_total_amount = Fin 100\<rparr>"

definition shared_expense :: "string \<Rightarrow> string list \<Rightarrow> Expense" where
  "shared_expense vendor ms =
     \<lparr>expense_id = ''backend-1'', vendorName = vendor, transactionDate = ''2025-07-26'',
      totalAmount = Fin 100, expense_category = ''Other'', lineItems = [], etype = shared,
      sharedSpaceId = None,
      sharedDetails = Some \<lparr>details_members = ms, paidBy = ''You''\<rparr>,
      members = Some ms, backendData = None\<rparr>"

definition numbered_uuid :: "nat \<Rightarrow> string" where
  "numbered_uuid n = ''uuid-'' @ digits n"

definition empty_state :: app_state where
  "empty_state = \<lparr>app_sharedSpaces = [], app_expenses = []\<rparr>"

section \<open>Properties of the Categorizer\<close>

lemma str_includes_iff: "str_includes s k \<longleftrightarrow> (\<exists>p q. s = p @ k @ q)"
proof (induction s)
  case Nil
  then show ?case by auto
next
  case (Cons c cs)
  show ?case
  proof
    assume "str_includes (c # cs) k"
    then consider "take (length k) (c # cs) = k" | "str_includes cs k" by auto
    then show "\<exists>p q. c # cs = p @ k @ q"
    proof cases
      case 1
      then have "c # cs = [] @ k @ drop (length k) (c # cs)"
        by (metis append_Nil append_take_drop_id)
      then show ?thesis by blast
    next
      case 2
      then obtain p q where "cs = p @ k @ q" using Cons.IH by blast
      then have "c # cs = (c # p) @ k @ q" by simp
      then show ?thesis by blast
    qed
  next
    assume "\<exists>p q. c # cs = p @ k @ q"
    then obtain p q where pq: "c # cs = p @ k @ q" by blast
    show "str_includes (c # cs) k"
    proof (cases p)
      case Nil
      with pq have "take (length k) (c # cs) = k" by simp
      then show ?thesis by simp
    next
      case (Cons a p')
      with pq have "cs = p' @ k @ q" by simp
      then have "str_includes cs k" using Cons.IH by blast
      then show ?thesis by simp
    qed
  qed
qed

text \<open>
  The search of \<open>includes\<close> finds exactly the contiguous sublists.
\<close>

lemma str_includes_sublist: "str_includes s k \<longleftrightarrow> sublist k s"
  by (simp add: str_includes_iff sublist_def)

text \<open>
  On each of the 256 characters the lower-casing of the source and the case folding by
  character code agree.
\<close>

lemma all_chars_fold: "list_all (\<lambda>c. toLowerCase_char c = fold_case c) (Enum.enum :: char list)"
  by code_simp

lemma toLowerCase_char_fold: "toLowerCase_char c = fold_case c"
proof -
  have "c \<in> set (Enum.enum :: char list)" by (simp add: enum_UNIV)
  with all_chars_fold show ?thesis by (simp add: list_all_iff)
qed

lemma join_space_concat: "join '' '' ds = tl (concat (map (\<lambda>d. CHR '' '' # d) ds))"
  by (induction "'' ''" ds rule: join.induct) simp_all

lemma joined_lower_is_search_string:
  "join '' '' (map (\<lambda>item. toLowerCase (description item)) items)
     = search_string (map description items)"
proof -
  have "map (\<lambda>d. CHR '' '' # d) (map (\<lambda>item. toLowerCase (description item)) items)
          = map (\<lambda>d. CHR '' '' # map fold_case d) (map description items)"
    by (simp add: toLowerCase_def toLowerCase_char_fold cong: map_cong)
  then show ?thesis
    by (simp only: join_space_concat search_string_def)
qed

lemma chain_is_table: "categorizeExpense items = categorize_table (map description items)"
  unfolding categorizeExpense_def categorize_table_def Let_def joined_lower_is_search_string
    str_includes_sublist category_table_def
  by simp

lemma grocery_run_snacks:
  "categorizeExpense [item_with ''grocery run'' x [], item_with ''snacks'' y []] = ''Groceries''"
  by (simp add: categorizeExpense_def item_with_def toLowerCase_def toLowerCase_char_def
      upper_letters_def lower_letters_def latin1_upper_def latin1_lower_def)

lemma weekly_run_supermarket:
  "categorizeExpense [item_with ''Weekly Run'' x [], item_with ''SUPERMARKET snacks'' y []]
     = ''Groceries''"
  by (simp add: categorizeExpense_def item_with_def toLowerCase_def toLowerCase_char_def
      upper_letters_def lower_letters_def latin1_upper_def latin1_lower_def)

lemma search_string_weekly_run:
  "search_string [''Weekly Run'', ''SUPERMARKET snacks''] = ''weekly run supermarket snacks''"
  by code_simp

text \<open>
  Claim C7. The chain of tests of \<open>categorizeExpense\<close> is the lookup in the ordered table
  Dining, Groceries, Transport, Electronics, Shopping, Utilities with the keywords of
  the specification: the descriptions, every upper-case letter replaced by its
  lower-case letter, are put one after the other with a single space between two of
  them, the first category one of whose keywords occurs in this search string as a run
  of adjacent characters is returned, and \<open>Other\<close> when there is none. The lookup
  \<open>categorize_table\<close> is written from these words and shares no function with the chain:
  it folds the case by character code, concatenates, and tests for a contiguous
  sublist. The result is a function of the descriptions alone; for the descriptions
  \<open>grocery run\<close> and \<open>snacks\<close> it is \<open>Groceries\<close>.
\<close>

theorem categorizeExpense_table:
  "categorizeExpense items = categorize_table (map description items)
   \<and> (map description items = [''grocery run'', ''snacks'']
        \<longrightarrow> categorizeExpense items = ''Groceries'')"
proof -
  have "categorize_table [''grocery run'', ''snacks''] = ''Groceries''"
    using chain_is_table[of "[item_with ''grocery run'' (Fin 0) [], item_with ''snacks'' (Fin 0) []]"]
      grocery_run_snacks[of "Fin 0" "Fin 0"]
    by (simp add: item_with_def)
  then show ?thesis using chain_is_table[of items] by simp
qed

theorem categorizeExpense_table_witness:
  "map description [item_with ''grocery run'' (Fin 120) [], item_with ''snacks'' (Fin 80) []]
     = [''grocery run'', ''snacks'']
   \<and> categorizeExpense [item_with ''grocery run'' (Fin 120) [], item_with ''snacks'' (Fin 80) []]
       = ''Groceries''
   \<and> search_string [''Weekly Run'', ''SUPERMARKET snacks''] = ''weekly run supermarket snacks''
   \<and> categorize_table [''Weekly Run'', ''SUPERMARKET snacks''] = ''Groceries''
   \<and> categorizeExpense
        [item_with ''Weekly Run'' (Fin 120) [], item_with ''SUPERMARKET snacks'' (Fin 80) []]
       = ''Groceries''"
proof -
  let ?g = "[item_with ''grocery run'' (Fin 120) [], item_with ''snacks'' (Fin 80) []]"
  let ?w = "[item_with ''Weekly Run'' (Fin 120) [], item_with ''SUPERMARKET snacks'' (Fin 80) []]"
  have d: "map description ?g = [''grocery run'', ''snacks'']"
    by (simp add: item_with_def)
  have g: "categorizeExpense ?g = ''Groceries''"
    using categorizeExpense_table[of ?g] d by blast
  have w: "categorizeExpense ?w = ''Groceries''"
    by (rule weekly_run_supermarket)
  have dw: "map description ?w = [''Weekly Run'', ''SUPERMARKET snacks'']"
    by (simp add: item_with_def)
  have t: "categorize_table [''Weekly Run'', ''SUPERMARKET snacks''] = ''Groceries''"
    using categorizeExpense_table[of ?w, THEN conjunct1] w dw by simp
  show ?thesis using d g search_string_weekly_run t w by (intro conjI)
qed


section \<open>Properties of the AllocationAggregator\<close>

lemma obj_update_map_of:
  "k \<in> fst ` set kvs \<Longrightarrow> map_of (obj_update kvs k v) = (map_of kvs)(k \<mapsto> v)"
  by (induction kvs k v rule: obj_update.induct) (force simp: fun_upd_twist)+

lemma obj_update_keys: "map fst (obj_update kvs k v) = map fst kvs"
  by (induction kvs k v rule: obj_update.induct) auto

lemma obj_insert_map_of:
  "k \<notin> fst ` set kvs \<Longrightarrow> map_of (obj_insert kvs k v) = (map_of kvs)(k \<mapsto> v)"
  by (induction kvs k v rule: obj_insert.induct) (auto simp: fun_upd_twist)

lemma obj_insert_keys: "fst ` set (obj_insert kvs k v) = insert k (fst ` set kvs)"
  by (induction kvs k v rule: obj_insert.induct) auto

lemma obj_insert_distinct:
  "distinct (map fst kvs) \<Longrightarrow> k \<notin> fst ` set kvs \<Longrightarrow> distinct (map fst (obj_insert kvs k v))"
  by (induction kvs k v rule: obj_insert.induct) (auto simp: obj_insert_keys)

lemma obj_set_map_of: "map_of (obj_set kvs k v) = (map_of kvs)(k \<mapsto> v)"
  by (simp add: obj_set_def obj_update_map_of obj_insert_map_of)

lemma obj_set_distinct: "distinct (map fst kvs) \<Longrightarrow> distinct (map fst (obj_set kvs k v))"
  by (simp add: obj_set_def obj_update_keys obj_insert_distinct)

lemma proto_inherited: "''__proto__'' \<in> set inherited_names"
  by (simp add: inherited_names_def)

text \<open>
  One split for a name the empty object does not inherit, in a dictionary of numbers:
  the entry of the name becomes its old total, 0 if there was none or if it was NaN, plus
  the amount.
\<close>

lemma addSplit_plain:
  assumes plain: "canonical_name (participant sp) \<notin> set inherited_names"
      and nums: "\<forall>k v. map_of kvs k = Some v \<longrightarrow> (\<exists>x. v = Num x)"
  shows "addSplit kvs sp =
           obj_set kvs (canonical_name (participant sp))
             (Num (js_add
                (let t = (case map_of kvs (canonical_name (participant sp)) of
                            Some (Num x) \<Rightarrow> x | _ \<Rightarrow> Fin 0)
                 in if t = NaN then Fin 0 else t)
                (split_amount sp)))"
proof -
  let ?n = "canonical_name (participant sp)"
  have np: "?n \<noteq> ''__proto__''" using plain proto_inherited by metis
  have unf: "addSplit kvs sp =
               obj_set kvs ?n (js_plus (or_zero (obj_get kvs ?n)) (split_amount sp))"
    using np by (simp add: addSplit_def canonical_name_def obj_assign_def Let_def)
  show ?thesis
  proof (cases "map_of kvs ?n")
    case None
    then have "obj_get kvs ?n = Undefined" using plain by (simp add: obj_get_def)
    then show ?thesis unfolding unf using None by simp
  next
    case (Some v)
    then obtain x where x: "v = Num x" using nums by blast
    have "obj_get kvs ?n = Num x" using Some x by (simp add: obj_get_def)
    then show ?thesis unfolding unf using Some x by (cases "x = Fin 0") auto
  qed
qed

lemma foldl_addSplit:
  assumes "list_all (\<lambda>sp. canonical_name (participant sp) \<notin> set inherited_names) ss"
      and "\<forall>k v. map_of kvs k = Some v \<longrightarrow> (\<exists>x. v = Num x)"
      and "distinct (map fst kvs)"
  shows "distinct (map fst (foldl addSplit kvs ss))
       \<and> (\<forall>name. map_of (foldl addSplit kvs ss) name =
            (if filter (\<lambda>sp. canonical_name (participant sp) = name) ss = []
             then map_of kvs name
             else Some (Num (foldl (\<lambda>t a. js_add (if t = NaN then Fin 0 else t) a)
                    (case map_of kvs name of Some (Num x) \<Rightarrow> x | _ \<Rightarrow> Fin 0)
                    (map split_amount
                       (filter (\<lambda>sp. canonical_name (participant sp) = name) ss))))))"
  using assms
proof (induction ss arbitrary: kvs)
  case Nil
  then show ?case by simp
next
  case (Cons sp ss)
  let ?n = "canonical_name (participant sp)"
  let ?step = "\<lambda>t a. js_add (if t = NaN then Fin 0 else t) a"
  let ?old = "case map_of kvs ?n of Some (Num x) \<Rightarrow> x | _ \<Rightarrow> Fin 0"
  let ?kvs = "obj_set kvs ?n (Num (?step ?old (split_amount sp)))"
  from Cons.prems(1) have plain: "?n \<notin> set inherited_names"
    and rest: "list_all (\<lambda>sp. canonical_name (participant sp) \<notin> set inherited_names) ss"
    by simp_all
  have unf: "addSplit kvs sp = ?kvs"
    using addSplit_plain[OF plain Cons.prems(2)] by (simp add: Let_def)
  have m: "map_of ?kvs = (map_of kvs)(?n \<mapsto> Num (?step ?old (split_amount sp)))"
    by (rule obj_set_map_of)
  have nums: "\<forall>k v. map_of ?kvs k = Some v \<longrightarrow> (\<exists>x. v = Num x)"
    using Cons.prems(2) by (simp add: obj_set_map_of)
  have dist: "distinct (map fst ?kvs)"
    using Cons.prems(3) by (rule obj_set_distinct)
  note ih = Cons.IH[OF rest nums dist]
  have d: "distinct (map fst (foldl addSplit kvs (sp # ss)))"
    using ih by (simp add: unf)
  have v: "map_of (foldl addSplit kvs (sp # ss)) name =
            (if filter (\<lambda>sp. canonical_name (participant sp) = name) (sp # ss) = []
             then map_of kvs name
             else Some (Num (foldl ?step
                    (case map_of kvs name of Some (Num x) \<Rightarrow> x | _ \<Rightarrow> Fin 0)
                    (map split_amount
                       (filter (\<lambda>sp. canonical_name (participant sp) = name) (sp # ss))))))"
    for name
  proof (cases "?n = name")
    case True
    have start: "(case map_of ?kvs name of Some (Num x) \<Rightarrow> x | _ \<Rightarrow> Fin 0)
                   = ?step ?old (split_amount sp)"
      using True by (simp add: obj_set_map_of)
    have here: "map_of ?kvs name = Some (Num (?step ?old (split_amount sp)))"
      using True by (simp add: obj_set_map_of)
    from ih have "map_of (foldl addSplit ?kvs ss) name =
            (if filter (\<lambda>sp. canonical_name (participant sp) = name) ss = []
             then map_of ?kvs name
             else Some (Num (foldl ?step
                    (case map_of ?kvs name of Some (Num x) \<Rightarrow> x | _ \<Rightarrow> Fin 0)
                    (map split_amount
                       (filter (\<lambda>sp. canonical_name (participant sp) = name) ss)))))"
      by blast
    then show ?thesis
      unfolding start here using True by (simp add: unf)
  next
    case False
    have same: "map_of ?kvs name = map_of kvs name"
      using False by (simp add: obj_set_map_of)
    from ih have "map_of (foldl addSplit ?kvs ss) name =
            (if filter (\<lambda>sp. canonical_name (participant sp) = name) ss = []
             then map_of ?kvs name
             else Some (Num (foldl ?step
                    (case map_of ?kvs name of Some (Num x) \<Rightarrow> x | _ \<Rightarrow> Fin 0)
                    (map split_amount
                       (filter (\<lambda>sp. canonical_name (participant sp) = name) ss)))))"
      by blast
    then show ?thesis
      unfolding same using False by (simp add: unf)
  qed
  show ?case using d v by blast
qed

lemma addItemSplits_eq: "addItemSplits kvs item = foldl addSplit kvs (item_splits item)"
  by (cases "splits item") (auto simp: addItemSplits_def item_splits_def)

lemma foldl_addItemSplits:
  "foldl addItemSplits kvs items = foldl addSplit kvs (all_splits items)"
  by (induction items arbitrary: kvs) (simp_all add: all_splits_def addItemSplits_eq)

lemma totals_plain:
  assumes "plain_names items"
  shows "distinct (map fst (calculateParticipantTotals items))"
    and "map_of (calculateParticipantTotals items) name =
           (if amounts_of name items = [] then None
            else Some (Num (running_total (amounts_of name items))))"
proof -
  have a: "list_all (\<lambda>sp. canonical_name (participant sp) \<notin> set inherited_names)
             (all_splits items)"
    using assms by (simp add: plain_names_def)
  have b: "\<forall>k v. map_of ([] :: (string \<times> jsvalue) list) k = Some v \<longrightarrow> (\<exists>x. v = Num x)"
    by simp
  have c: "distinct (map fst ([] :: (string \<times> jsvalue) list))" by simp
  note f = foldl_addSplit[OF a b c]
  show "distinct (map fst (calculateParticipantTotals items))"
    using f by (simp add: calculateParticipantTotals_def foldl_addItemSplits)
  from f have "map_of (foldl addSplit [] (all_splits items)) name =
            (if filter (\<lambda>sp. canonical_name (participant sp) = name) (all_splits items) = []
             then map_of [] name
             else Some (Num (foldl (\<lambda>t a. js_add (if t = NaN then Fin 0 else t) a)
                    (case map_of ([] :: (string \<times> jsvalue) list) name of
                       Some (Num x) \<Rightarrow> x | _ \<Rightarrow> Fin 0)
                    (map split_amount
                       (filter (\<lambda>sp. canonical_name (participant sp) = name)
                          (all_splits items))))))"
    by blast
  then show "map_of (calculateParticipantTotals items) name =
           (if amounts_of name items = [] then None
            else Some (Num (running_total (amounts_of name items))))"
    by (simp add: calculateParticipantTotals_def foldl_addItemSplits amounts_of_def
        running_total_def)
qed

lemma totals_keys:
  assumes "plain_names items"
  shows "set (map fst (calculateParticipantTotals items))
           = (\<lambda>sp. canonical_name (participant sp)) ` set (all_splits items)"
proof -
  have "set (map fst (calculateParticipantTotals items))
          = dom (map_of (calculateParticipantTotals items))"
    by (simp add: dom_map_of_conv_image_fst)
  also have "\<dots> = {name. amounts_of name items \<noteq> []}"
    using totals_plain(2)[OF assms] by (auto simp: dom_def)
  also have "\<dots> = (\<lambda>sp. canonical_name (participant sp)) ` set (all_splits items)"
    by (auto simp: amounts_of_def filter_empty_conv)
  finally show ?thesis .
qed

lemma no_splits_excluded:
  "splits item = None \<or> splits item = Some [] \<Longrightarrow>
   calculateParticipantTotals (xs @ item # ys) = calculateParticipantTotals (xs @ ys)"
  by (auto simp: calculateParticipantTotals_def addItemSplits_def)

text \<open>
  Sums taken class by class add up to the sum of the whole list, when every class of the
  list is among the distinct classes summed over.
\<close>

lemma partition_sum:
  fixes g :: "'a \<Rightarrow> rat"
  assumes "distinct ks" "f ` set xs \<subseteq> set ks"
  shows "sum_list (map (\<lambda>k. sum_list (map g (filter (\<lambda>x. f x = k) xs))) ks)
           = sum_list (map g xs)"
  using assms(2)
proof (induction xs)
  case Nil
  then show ?case by simp
next
  case (Cons x xs)
  have one: "sum_list (map (\<lambda>k. if f x = k then g x else 0) ks) = g x"
  proof -
    have "sum_list (map (\<lambda>k. if f x = k then g x else 0) ks)
            = (\<Sum>k\<in>set ks. if f x = k then g x else 0)"
      using assms(1) by (simp add: sum_list_distinct_conv_sum_set)
    also have "\<dots> = g x" using Cons.prems by simp
    finally show ?thesis .
  qed
  have "sum_list (map (\<lambda>k. sum_list (map g (filter (\<lambda>y. f y = k) (x # xs)))) ks)
          = sum_list (map (\<lambda>k. (if f x = k then g x else 0)
                                 + sum_list (map g (filter (\<lambda>y. f y = k) xs))) ks)"
    by (rule arg_cong[where f = sum_list]) auto
  also have "\<dots> = sum_list (map (\<lambda>k. if f x = k then g x else 0) ks)
                   + sum_list (map (\<lambda>k. sum_list (map g (filter (\<lambda>y. f y = k) xs))) ks)"
    by (simp add: sum_list_addf)
  also have "\<dots> = g x + sum_list (map g xs)"
    using one Cons.IH Cons.prems by simp
  finally show ?case by simp
qed

lemma totals_exact_sum:
  assumes p: "plain_names items" and e: "exact_totals items"
  shows "values_sum (calculateParticipantTotals items) = amounts_sum items"
proof -
  let ?T = "calculateParticipantTotals items"
  let ?f = "\<lambda>sp. canonical_name (participant sp)"
  let ?g = "\<lambda>sp. fin_val (split_amount sp)"
  have d: "distinct (map fst ?T)" by (rule totals_plain(1)[OF p])
  have keys: "set (map fst ?T) = ?f ` set (all_splits items)" by (rule totals_keys[OF p])
  have val: "(case snd kv of Num x \<Rightarrow> fin_val x | _ \<Rightarrow> 0)
               = sum_list (map ?g (filter (\<lambda>sp. ?f sp = fst kv) (all_splits items)))"
    if kv: "kv \<in> set ?T" for kv
  proof -
    have m: "map_of ?T (fst kv) = Some (snd kv)" using d kv by simp
    have "fst kv \<in> ?f ` set (all_splits items)" using keys kv by force
    then obtain sp where sp: "sp \<in> set (all_splits items)" "?f sp = fst kv" by auto
    then have ne: "amounts_of (fst kv) items \<noteq> []"
      by (auto simp: amounts_of_def filter_empty_conv)
    have "running_total (amounts_of (fst kv) items)
            = Fin (sum_list (map fin_val (amounts_of (fst kv) items)))"
      using e sp by (auto simp: exact_totals_def list_all_iff)
    then have "snd kv = Num (Fin (sum_list (map fin_val (amounts_of (fst kv) items))))"
      using totals_plain(2)[OF p, of "fst kv"] m ne by simp
    then show ?thesis by (simp add: amounts_of_def fin_val_def comp_def)
  qed
  have "values_sum ?T
          = sum_list (map (\<lambda>kv. sum_list (map ?g (filter (\<lambda>sp. ?f sp = fst kv) (all_splits items)))) ?T)"
    unfolding values_sum_def by (rule arg_cong[where f = sum_list]) (simp add: val)
  also have "\<dots> = sum_list (map (\<lambda>k. sum_list (map ?g (filter (\<lambda>sp. ?f sp = k) (all_splits items))))
                        (map fst ?T))"
    by (simp add: comp_def)
  also have "\<dots> = sum_list (map ?g (all_splits items))"
    using partition_sum[OF d, of ?f "all_splits items" ?g] keys by simp
  finally show ?thesis by (simp add: amounts_sum_def)
qed

text \<open>Whole amounts of this size are doubles: adding them does not round.\<close>

lemma round_600: "round_double 600 = Fin 600"
  by code_simp

lemma round_400: "round_double 400 = Fin 400"
  by code_simp

lemma round_650: "round_double 650 = Fin 650"
  by code_simp

lemma totals_of_me_and_Priya:
  "calculateParticipantTotals
     [item_with d a [\<lparr>participant = ''me'', split_amount = Fin 600\<rparr>,
                     \<lparr>participant = ''Priya'', split_amount = Fin 400\<rparr>]]
   = [(''You'', Num (Fin 600)), (''Priya'', Num (Fin 400))]"
  by (simp add: calculateParticipantTotals_def addItemSplits_def item_with_def addSplit_def
      obj_assign_def obj_get_def inherited_names_def round_600 round_400 obj_set_def
      precedes_def array_index_def)

text \<open>Splits for two of the names that the empty object inherits.\<close>

lemma totals_proto_dropped:
  "calculateParticipantTotals
     [item_with ''dinner'' (Fin 600)
        [\<lparr>participant = ''__proto__'', split_amount = Fin 600\<rparr>]] = []"
  by code_simp

lemma totals_constructor_text:
  "calculateParticipantTotals
     [item_with ''dinner'' (Fin 600)
        [\<lparr>participant = ''constructor'', split_amount = Fin 600\<rparr>]]
   = [(''constructor'', Str (Append (Inherited ''constructor'') (Fin 600)))]"
  by code_simp

text \<open>
  The doubles written 0.1, 0.2 and 0.4, split between two names: the total of \<open>A\<close> is
  rounded to 0.5.
\<close>

lemma totals_rounded:
  "calculateParticipantTotals
     [item_with ''lunch'' (Fin 1)
        [\<lparr>participant = ''A'', split_amount = round_double (1 / 10)\<rparr>,
         \<lparr>participant = ''B'', split_amount = round_double (2 / 10)\<rparr>,
         \<lparr>participant = ''A'', split_amount = round_double (4 / 10)\<rparr>]]
   = [(''A'', Num (Fin (1 / 2))), (''B'', Num (round_double (2 / 10)))]"
  by code_simp

lemma rounded_sum_not_exact:
  "values_sum [(''A'', Num (Fin (1 / 2))), (''B'', Num (round_double (2 / 10)))]
     \<noteq> fin_val (round_double (1 / 10)) + fin_val (round_double (2 / 10))
         + fin_val (round_double (4 / 10))"
  by code_simp

lemma rounded_sum_not_float:
  "js_add (js_add (Fin 0) (Fin (1 / 2))) (round_double (2 / 10))
     \<noteq> js_add (js_add (js_add (Fin 0) (round_double (1 / 10))) (round_double (2 / 10)))
           (round_double (4 / 10))"
  by code_simp

text \<open>
  Claim C3, as stated, fails in two ways. A split for a name the empty object inherits
  is not summed: the split of 600 for \<open>__proto__\<close> is dropped and the mapping stays
  empty, and the split of 600 for \<open>constructor\<close> is stored as a text. And additions are
  rounded: with the splits 0.1 for \<open>A\<close>, 0.2 for \<open>B\<close> and 0.4 for \<open>A\<close> the values are 0.5 and
  0.2, and their sum differs from the sum of the three amounts, taken exactly or added
  in floating point.
\<close>

theorem calculateParticipantTotals_sum_counterexample:
  "calculateParticipantTotals
     [item_with ''dinner'' (Fin 600)
        [\<lparr>participant = ''__proto__'', split_amount = Fin 600\<rparr>]] = []
   \<and> calculateParticipantTotals
       [item_with ''dinner'' (Fin 600)
          [\<lparr>participant = ''constructor'', split_amount = Fin 600\<rparr>]]
       = [(''constructor'', Str (Append (Inherited ''constructor'') (Fin 600)))]
   \<and> calculateParticipantTotals
       [item_with ''lunch'' (Fin 1)
          [\<lparr>participant = ''A'', split_amount = round_double (1 / 10)\<rparr>,
           \<lparr>participant = ''B'', split_amount = round_double (2 / 10)\<rparr>,
           \<lparr>participant = ''A'', split_amount = round_double (4 / 10)\<rparr>]]
       = [(''A'', Num (Fin (1 / 2))), (''B'', Num (round_double (2 / 10)))]
   \<and> values_sum [(''A'', Num (Fin (1 / 2))), (''B'', Num (round_double (2 / 10)))]
       \<noteq> fin_val (round_double (1 / 10)) + fin_val (round_double (2 / 10))
           + fin_val (round_double (4 / 10))
   \<and> js_add (js_add (Fin 0) (Fin (1 / 2))) (round_double (2 / 10))
       \<noteq> js_add (js_add (js_add (Fin 0) (round_double (1 / 10))) (round_double (2 / 10)))
             (round_double (4 / 10))"
  using totals_proto_dropped totals_constructor_text totals_rounded rounded_sum_not_exact
    rounded_sum_not_float
  by (intro conjI)

text \<open>
  Claim C3, amended. When no split is for a name the empty object inherits, the mapping
  \<open>calculateParticipantTotals\<close> returns has exactly the names, with \<open>me\<close> replaced by
  \<open>You\<close>, that occur in some split, each once: a participant without a split is absent,
  not mapped to zero. The value under a name is the total of the amounts split off for
  that name, added one by one in their order, in floating point, from 0, a total that has
  become NaN being taken as 0 again. When every amount is finite and none of these
  additions has rounded, the values sum exactly to the sum of all split amounts of all
  line items. A line item without splits changes nothing: there is no equal-split
  fallback. One line item split into 600 for \<open>me\<close> and 400 for \<open>Priya\<close> gives
  \<open>You: 600, Priya: 400\<close>.
\<close>

theorem calculateParticipantTotals_running_totals:
  assumes "plain_names items"
  shows "map_of (calculateParticipantTotals items) name =
           (if amounts_of name items = [] then None
            else Some (Num (running_total (amounts_of name items))))
       \<and> set (map fst (calculateParticipantTotals items))
           = (\<lambda>sp. canonical_name (participant sp)) ` set (all_splits items)
       \<and> distinct (map fst (calculateParticipantTotals items))
       \<and> (exact_totals items
            \<longrightarrow> values_sum (calculateParticipantTotals items) = amounts_sum items)
       \<and> (splits item = None \<or> splits item = Some [] \<longrightarrow>
            calculateParticipantTotals (xs @ item # ys) = calculateParticipantTotals (xs @ ys))
       \<and> calculateParticipantTotals
            [item_with d a [\<lparr>participant = ''me'', split_amount = Fin 600\<rparr>,
                            \<lparr>participant = ''Priya'', split_amount = Fin 400\<rparr>]]
           = [(''You'', Num (Fin 600)), (''Priya'', Num (Fin 400))]"
  using totals_plain(2)[OF assms, of name] totals_keys[OF assms] totals_plain(1)[OF assms]
    totals_exact_sum[OF assms] no_splits_excluded[of item xs ys] totals_of_me_and_Priya[of d a]
  by (intro conjI impI)

lemma running_650: "running_total [Fin 600, Fin 50] = Fin 650"
  by code_simp

lemma running_400: "running_total [Fin 400] = Fin 400"
  by code_simp

lemma running_restart: "running_total [PosInf, NegInf, Fin 5] = Fin 5"
  by code_simp

lemma running_tenths:
  "running_total [Fin (3602879701896397 / 36028797018963968),
                  Fin (3602879701896397 / 18014398509481984)]
     = Fin (1351079888211149 / 4503599627370496)"
  by code_simp

theorem calculateParticipantTotals_running_totals_witness:
  "plain_names
     [item_with ''dinner'' (Fin 1050)
        [\<lparr>participant = ''me'', split_amount = Fin 600\<rparr>,
         \<lparr>participant = ''Priya'', split_amount = Fin 400\<rparr>,
         \<lparr>participant = ''me'', split_amount = Fin 50\<rparr>],
      item_with ''tip'' (Fin 50) []]
   \<and> map_of (calculateParticipantTotals
        [item_with ''dinner'' (Fin 1050)
           [\<lparr>participant = ''me'', split_amount = Fin 600\<rparr>,
            \<lparr>participant = ''Priya'', split_amount = Fin 400\<rparr>,
            \<lparr>participant = ''me'', split_amount = Fin 50\<rparr>],
         item_with ''tip'' (Fin 50) []]) ''You'' = Some (Num (Fin 650))
   \<and> map_of (calculateParticipantTotals
        [item_with ''dinner'' (Fin 1050)
           [\<lparr>participant = ''me'', split_amount = Fin 600\<rparr>,
            \<lparr>participant = ''Priya'', split_amount = Fin 400\<rparr>,
            \<lparr>participant = ''me'', split_amount = Fin 50\<rparr>],
         item_with ''tip'' (Fin 50) []]) ''Rohit'' = None
   \<and> exact_totals
        [item_with ''dinner'' (Fin 1050)
           [\<lparr>participant = ''me'', split_amount = Fin 600\<rparr>,
            \<lparr>participant = ''Priya'', split_amount = Fin 400\<rparr>,
            \<lparr>participant = ''me'', split_amount = Fin 50\<rparr>],
         item_with ''tip'' (Fin 50) []]
   \<and> values_sum (calculateParticipantTotals
        [item_with ''dinner'' (Fin 1050)
           [\<lparr>participant = ''me'', split_amount = Fin 600\<rparr>,
            \<lparr>participant = ''Priya'', split_amount = Fin 400\<rparr>,
            \<lparr>participant = ''me'', split_amount = Fin 50\<rparr>],
         item_with ''tip'' (Fin 50) []]) = 1050
   \<and> splits (item_with ''tip'' (Fin 50) []) = Some []
   \<and> calculateParticipantTotals
        [item_with ''dinner'' (Fin 1050)
           [\<lparr>participant = ''me'', split_amount = Fin 600\<rparr>,
            \<lparr>participant = ''Priya'', split_amount = Fin 400\<rparr>,
            \<lparr>participant = ''me'', split_amount = Fin 50\<rparr>],
         item_with ''tip'' (Fin 50) []]
       = calculateParticipantTotals
           [item_with ''dinner'' (Fin 1050)
              [\<lparr>participant = ''me'', split_amount = Fin 600\<rparr>,
               \<lparr>participant = ''Priya'', split_amount = Fin 400\<rparr>,
               \<lparr>participant = ''me'', split_amount = Fin 50\<rparr>]]
   \<and> plain_names
       [item_with ''refund'' (Fin 5)
          [\<lparr>participant = ''Priya'', split_amount = PosInf\<rparr>,
           \<lparr>participant = ''Priya'', split_amount = NegInf\<rparr>,
           \<lparr>participant = ''Priya'', split_amount = Fin 5\<rparr>]]
   \<and> map_of (calculateParticipantTotals
        [item_with ''refund'' (Fin 5)
           [\<lparr>participant = ''Priya'', split_amount = PosInf\<rparr>,
            \<lparr>participant = ''Priya'', split_amount = NegInf\<rparr>,
            \<lparr>participant = ''Priya'', split_amount = Fin 5\<rparr>]]) ''Priya''
       = Some (Num (Fin 5))
   \<and> plain_names
       [item_with ''sweets'' (Fin (3 / 10))
          [\<lparr>participant = ''Asha'', split_amount = Fin (3602879701896397 / 36028797018963968)\<rparr>,
           \<lparr>participant = ''Asha'', split_amount = Fin (3602879701896397 / 18014398509481984)\<rparr>]]
   \<and> map_of (calculateParticipantTotals
        [item_with ''sweets'' (Fin (3 / 10))
           [\<lparr>participant = ''Asha'', split_amount = Fin (3602879701896397 / 36028797018963968)\<rparr>,
            \<lparr>participant = ''Asha'', split_amount = Fin (3602879701896397 / 18014398509481984)\<rparr>]])
         ''Asha''
       = Some (Num (Fin (1351079888211149 / 4503599627370496)))"
proof -
  let ?items = "[item_with ''dinner'' (Fin 1050)
        [\<lparr>participant = ''me'', split_amount = Fin 600\<rparr>,
         \<lparr>participant = ''Priya'', split_amount = Fin 400\<rparr>,
         \<lparr>participant = ''me'', split_amount = Fin 50\<rparr>],
      item_with ''tip'' (Fin 50) []]"
  let ?refund = "[item_with ''refund'' (Fin 5)
          [\<lparr>participant = ''Priya'', split_amount = PosInf\<rparr>,
           \<lparr>participant = ''Priya'', split_amount = NegInf\<rparr>,
           \<lparr>participant = ''Priya'', split_amount = Fin 5\<rparr>]]"
  let ?sweets = "[item_with ''sweets'' (Fin (3 / 10))
          [\<lparr>participant = ''Asha'', split_amount = Fin (3602879701896397 / 36028797018963968)\<rparr>,
           \<lparr>participant = ''Asha'', split_amount = Fin (3602879701896397 / 18014398509481984)\<rparr>]]"
  have p: "plain_names ?items"
    by (simp add: plain_names_def all_splits_def item_splits_def item_with_def
        canonical_name_def inherited_names_def)
  have you: "amounts_of ''You'' ?items = [Fin 600, Fin 50]"
    by (simp add: amounts_of_def all_splits_def item_splits_def item_with_def canonical_name_def)
  have priya': "amounts_of ''Priya'' ?items = [Fin 400]"
    by (simp add: amounts_of_def all_splits_def item_splits_def item_with_def canonical_name_def)
  have rohit: "amounts_of ''Rohit'' ?items = []"
    by (simp add: amounts_of_def all_splits_def item_splits_def item_with_def canonical_name_def)
  have q: "plain_names ?refund"
    by (simp add: plain_names_def all_splits_def item_splits_def item_with_def
        canonical_name_def inherited_names_def)
  have priya: "amounts_of ''Priya'' ?refund = [PosInf, NegInf, Fin 5]"
    by (simp add: amounts_of_def all_splits_def item_splits_def item_with_def canonical_name_def)
  have r: "plain_names ?sweets"
    by (simp add: plain_names_def all_splits_def item_splits_def item_with_def
        canonical_name_def inherited_names_def)
  have asha: "amounts_of ''Asha'' ?sweets
                = [Fin (3602879701896397 / 36028797018963968),
                   Fin (3602879701896397 / 18014398509481984)]"
    by (simp add: amounts_of_def all_splits_def item_splits_def item_with_def canonical_name_def)
  have a: "map_of (calculateParticipantTotals ?items) ''You'' = Some (Num (Fin 650))"
    using calculateParticipantTotals_running_totals[OF p, of "''You''", THEN conjunct1]
    by (simp add: you running_650)
  have b: "map_of (calculateParticipantTotals ?items) ''Rohit'' = None"
    using calculateParticipantTotals_running_totals[OF p, of "''Rohit''", THEN conjunct1]
    by (simp add: rohit)
  have sp: "all_splits ?items
              = [\<lparr>participant = ''me'', split_amount = Fin 600\<rparr>,
                 \<lparr>participant = ''Priya'', split_amount = Fin 400\<rparr>,
                 \<lparr>participant = ''me'', split_amount = Fin 50\<rparr>]"
    by (simp add: all_splits_def item_splits_def item_with_def)
  have ex: "exact_totals ?items"
    unfolding exact_totals_def sp
    by (simp add: canonical_name_def isFinite_def you priya' running_650 running_400
        fin_val_def)
  have total: "amounts_sum ?items = 1050"
    unfolding amounts_sum_def sp by (simp add: fin_val_def)
  have s: "values_sum (calculateParticipantTotals ?items) = 1050"
    using calculateParticipantTotals_running_totals[OF p, of "''You''"] ex total
    by simp
  have tip: "splits (item_with ''tip'' (Fin 50) []) = Some []"
    by (simp add: item_with_def)
  have n: "calculateParticipantTotals ?items
             = calculateParticipantTotals
                 [item_with ''dinner'' (Fin 1050)
                    [\<lparr>participant = ''me'', split_amount = Fin 600\<rparr>,
                     \<lparr>participant = ''Priya'', split_amount = Fin 400\<rparr>,
                     \<lparr>participant = ''me'', split_amount = Fin 50\<rparr>]]"
    using calculateParticipantTotals_running_totals[OF p,
        where item = "item_with ''tip'' (Fin 50) []"
          and xs = "[item_with ''dinner'' (Fin 1050)
                    [\<lparr>participant = ''me'', split_amount = Fin 600\<rparr>,
                     \<lparr>participant = ''Priya'', split_amount = Fin 400\<rparr>,
                     \<lparr>participant = ''me'', split_amount = Fin 50\<rparr>]]"
          and ys = "[]"] tip
    by simp
  have c: "map_of (calculateParticipantTotals ?refund) ''Priya'' = Some (Num (Fin 5))"
    using calculateParticipantTotals_running_totals[OF q, of "''Priya''", THEN conjunct1]
    by (simp add: priya running_restart)
  have t: "map_of (calculateParticipantTotals ?sweets) ''Asha''
             = Some (Num (Fin (1351079888211149 / 4503599627370496)))"
    using calculateParticipantTotals_running_totals[OF r, of "''Asha''", THEN conjunct1]
    by (simp add: asha running_tenths)
  show ?thesis using p a b ex s tip n q c r t by (intro conjI)
qed

text \<open>
  Claim C8. The alias of \<open>me\<close> is compared with \<open>===\<close>: a split of \<open>Me\<close>, which equals \<open>me\<close>
  when letter case is ignored, is accumulated under the name \<open>Me\<close> and the mapping has no
  entry \<open>You\<close>; a single split is filed under \<open>You\<close> for the exact name \<open>me\<close> and under
  its own name otherwise (dropped for \<open>__proto__\<close>, a text for the other names the empty
  object inherits). The filter of the Canonicalizer does ignore the case of the same
  word: it drops \<open>Me\<close> from the participants.
\<close>

theorem alias_of_Me_not_You:
  "toLowerCase ''Me'' = ''me''
   \<and> calculateParticipantTotals
        [item_with ''dinner'' (Fin 600) [\<lparr>participant = ''Me'', split_amount = Fin 600\<rparr>]]
       = [(''Me'', Num (Fin 600))]
   \<and> calculateParticipantTotals
        [item_with d a [\<lparr>participant = p, split_amount = Fin x\<rparr>]]
       = (if p = ''__proto__'' then []
          else [(if p = ''me'' then ''You'' else p,
                 if p \<in> set inherited_names then Str (Append (Inherited p) (Fin x))
                 else Num (round_double x))])
   \<and> filter not_self [''Me'', ''Priya''] = [''Priya'']"
proof -
  have lower: "toLowerCase ''Me'' = ''me''"
    by (simp add: toLowerCase_def toLowerCase_char_def upper_letters_def lower_letters_def
        latin1_upper_def latin1_lower_def)
  have me: "''me'' \<notin> set inherited_names" "''You'' \<notin> set inherited_names"
    by (simp_all add: inherited_names_def)
  have one: "calculateParticipantTotals
        [item_with d a [\<lparr>participant = p, split_amount = Fin x\<rparr>]]
       = (if p = ''__proto__'' then []
          else [(if p = ''me'' then ''You'' else p,
                 if p \<in> set inherited_names then Str (Append (Inherited p) (Fin x))
                 else Num (round_double x))])"
    using me
    by (auto simp: calculateParticipantTotals_def addItemSplits_def item_with_def addSplit_def
        obj_assign_def obj_get_def obj_set_def)
  have Me: "calculateParticipantTotals
        [item_with ''dinner'' (Fin 600) [\<lparr>participant = ''Me'', split_amount = Fin 600\<rparr>]]
       = [(''Me'', Num (Fin 600))]"
    by (simp add: calculateParticipantTotals_def addItemSplits_def item_with_def addSplit_def
        obj_assign_def obj_get_def inherited_names_def round_600 obj_set_def)
  have kept: "filter not_self [''Me'', ''Priya''] = [''Priya'']"
    by (simp add: not_self_def toLowerCase_def toLowerCase_char_def upper_letters_def
        lower_letters_def latin1_upper_def latin1_lower_def)
  show ?thesis using lower Me one kept by (intro conjI)
qed

lemma percentage_600_of_1000: "percentage (Fin 600) (Fin 1000) = Some ''60.0''"
  by code_simp

lemma percentage_23_of_80: "percentage (Fin 23) (Fin 80) = Some ''28.7''"
  by code_simp

lemma budgetProgress_zero_budget: "toFixed1 (budgetProgress (Fin 600) (Fin 0)) = Some ''0.0''"
  by code_simp

text \<open>
  Claim C4. With an expense total of zero the percentage of a participant is computed
  all the same: the division yields an infinity, or NaN for a participant total of zero,
  and the text shown is \<open>Infinity\<close>, \<open>-Infinity\<close> or \<open>NaN\<close>, whatever the participant total.
  Nothing reports the percentage as not applicable.
\<close>

theorem percentage_of_zero_total:
  "percentage (Fin 600) (Fin 0) = Some ''Infinity''
   \<and> percentage (Fin 0) (Fin 0) = Some ''NaN''
   \<and> percentage (Fin (- 600)) (Fin 0) = Some ''-Infinity''
   \<and> percentage (Fin participantTotal) (Fin 0)
       = Some (if participantTotal = 0 then ''NaN''
               else if participantTotal < 0 then ''-Infinity'' else ''Infinity'')"
  by (simp add: percentage_def toFixed1_def inf_of_sign_def)


section \<open>Properties of the shared spaces\<close>

lemma same_members_set_eq:
  assumes "distinct a" "distinct b"
  shows "same_members a b \<longleftrightarrow> set a = set b"
proof
  assume sm: "same_members a b"
  then have len: "length a = length b" and sub: "set a \<subseteq> set b"
    by (auto simp: same_members_def list_all_iff)
  have "card (set a) = card (set b)"
    using assms len by (simp add: distinct_card)
  with sub show "set a = set b"
    by (simp add: card_subset_eq)
next
  assume eq: "set a = set b"
  then have "length a = length b"
    using assms by (metis distinct_card)
  with eq show "same_members a b"
    by (simp add: same_members_def list_all_iff)
qed

lemma addSharedSpace_unfold:
  "fst (addSharedSpace uuid acc e) =
     (case space_target e of
        None \<Rightarrow> fst acc
      | Some ms \<Rightarrow>
          (if \<exists>s \<in> set (fst acc). same_members (space_members s) ms then fst acc
           else fst acc @ [\<lparr>space_id = (if (case sharedSpaceId e of None \<Rightarrow> True | Some sid \<Rightarrow> sid = [])
                                          then uuid (snd acc) else the (sharedSpaceId e)),
                             space_name = vendorName e @ '' Group'',
                             space_members = ms\<rparr>]))"
proof (cases "members e")
  case None
  then show ?thesis by (simp add: addSharedSpace_def space_target_def Let_def)
next
  case (Some ms)
  show ?thesis
  proof (cases "etype e = shared")
    case False
    then show ?thesis using Some by (simp add: addSharedSpace_def space_target_def Let_def)
  next
    case True
    show ?thesis
    proof (cases "find (\<lambda>space. same_members (space_members space) ms) (fst acc)")
      case None
      then have "\<not> (\<exists>s \<in> set (fst acc). same_members (space_members s) ms)"
        by (auto simp: find_None_iff)
      then show ?thesis using Some True None
        by (simp add: addSharedSpace_def space_target_def Let_def)
    next
      case (Some sp)
      then have "\<exists>s \<in> set (fst acc). same_members (space_members s) ms"
        by (metis find_None_iff option.distinct(1))
      then show ?thesis using \<open>members e = Some ms\<close> True Some
        by (simp add: addSharedSpace_def space_target_def Let_def)
    qed
  qed
qed

lemma addSharedSpace_step:
  assumes inv: "spaces_inv (fst acc)"
      and d: "case space_target e of None \<Rightarrow> True | Some ms \<Rightarrow> distinct ms"
  shows "spaces_inv (fst (addSharedSpace uuid acc e))"
    and "set (member_sets (fst (addSharedSpace uuid acc e))) =
           set (member_sets (fst acc)) \<union> (case space_target e of None \<Rightarrow> {} | Some ms \<Rightarrow> {set ms})"
proof -
  have both: "spaces_inv (fst (addSharedSpace uuid acc e)) \<and>
     set (member_sets (fst (addSharedSpace uuid acc e))) =
           set (member_sets (fst acc)) \<union> (case space_target e of None \<Rightarrow> {} | Some ms \<Rightarrow> {set ms})"
  proof (cases "space_target e")
    case None
    then show ?thesis using inv by (simp add: addSharedSpace_unfold)
  next
    case (Some ms)
    with d have dms: "distinct ms" by simp
    have iff: "(\<exists>s \<in> set (fst acc). same_members (space_members s) ms) \<longleftrightarrow> set ms \<in> set (member_sets (fst acc))"
    proof -
      have "\<And>s. s \<in> set (fst acc) \<Longrightarrow> same_members (space_members s) ms \<longleftrightarrow> set (space_members s) = set ms"
        using inv dms by (simp add: spaces_inv_def same_members_set_eq)
      then show ?thesis by (auto simp: member_sets_def)
    qed
    show ?thesis
    proof (cases "set ms \<in> set (member_sets (fst acc))")
      case True
      then show ?thesis using Some inv iff by (auto simp: addSharedSpace_unfold)
    next
      case False
      then show ?thesis using Some inv iff dms
        by (auto simp: addSharedSpace_unfold spaces_inv_def member_sets_def)
    qed
  qed
  show "spaces_inv (fst (addSharedSpace uuid acc e))" using both by blast
  show "set (member_sets (fst (addSharedSpace uuid acc e))) =
           set (member_sets (fst acc)) \<union> (case space_target e of None \<Rightarrow> {} | Some ms \<Rightarrow> {set ms})"
    using both by blast
qed

lemma foldl_addSharedSpace:
  assumes "spaces_inv (fst acc)" "duplicate_free es"
  shows "spaces_inv (fst (foldl (addSharedSpace uuid) acc es)) \<and>
         set (member_sets (fst (foldl (addSharedSpace uuid) acc es))) =
           set (member_sets (fst acc)) \<union> {set ms | ms e. e \<in> set es \<and> space_target e = Some ms}"
  using assms
proof (induction es arbitrary: acc)
  case Nil
  then show ?case by simp
next
  case (Cons e es)
  from Cons.prems(2) have d: "case space_target e of None \<Rightarrow> True | Some ms \<Rightarrow> distinct ms"
    and rest: "duplicate_free es" by (simp_all add: duplicate_free_def)
  note st = addSharedSpace_step[OF Cons.prems(1) d, of uuid]
  have ih: "spaces_inv (fst (foldl (addSharedSpace uuid) (addSharedSpace uuid acc e) es)) \<and>
         set (member_sets (fst (foldl (addSharedSpace uuid) (addSharedSpace uuid acc e) es))) =
           set (member_sets (fst (addSharedSpace uuid acc e))) \<union> {set ms | ms e. e \<in> set es \<and> space_target e = Some ms}"
    by (rule Cons.IH[OF st(1) rest])
  show ?case
  proof (cases "space_target e")
    case None
    then show ?thesis using ih st(2) by auto
  next
    case (Some ms)
    then show ?thesis using ih st(2) by auto
  qed
qed

lemma groupSharedSpaces_sets:
  assumes "duplicate_free es"
  shows "distinct (member_sets (groupSharedSpaces uuid es))"
    and "set (member_sets (groupSharedSpaces uuid es)) = {set ms | ms e. e \<in> set es \<and> space_target e = Some ms}"
proof -
  have "spaces_inv (fst (([], 0) :: SharedSpace list \<times> nat))"
    by (simp add: spaces_inv_def member_sets_def)
  from foldl_addSharedSpace[OF this assms, of uuid]
  show "distinct (member_sets (groupSharedSpaces uuid es))"
    and "set (member_sets (groupSharedSpaces uuid es)) = {set ms | ms e. e \<in> set es \<and> space_target e = Some ms}"
    by (simp_all add: groupSharedSpaces_def spaces_inv_def member_sets_def)
qed

lemma group_Cafe_Mall:
  "groupSharedSpaces numbered_uuid
     [shared_expense ''Cafe'' [''You'', ''A'', ''A''], shared_expense ''Mall'' [''You'', ''A'', ''B'']]
   = [\<lparr>space_id = ''uuid-0'', space_name = ''Cafe Group'',
        space_members = [''You'', ''A'', ''A'']\<rparr>]"
  by (simp add: groupSharedSpaces_def addSharedSpace_def shared_expense_def same_members_def
      numbered_uuid_def digits.simps Let_def)

lemma group_Mall_Cafe:
  "groupSharedSpaces numbered_uuid
     [shared_expense ''Mall'' [''You'', ''A'', ''B''], shared_expense ''Cafe'' [''You'', ''A'', ''A'']]
   = [\<lparr>space_id = ''uuid-0'', space_name = ''Mall Group'',
        space_members = [''You'', ''A'', ''B'']\<rparr>,
      \<lparr>space_id = ''uuid-1'', space_name = ''Cafe Group'',
        space_members = [''You'', ''A'', ''A'']\<rparr>]"
  by (simp add: groupSharedSpaces_def addSharedSpace_def shared_expense_def same_members_def
      numbered_uuid_def digits.simps Let_def)

lemma group_repeated_member:
  "groupSharedSpaces numbered_uuid
     [shared_expense ''Cafe'' [''You'', ''A''], shared_expense ''Mall'' [''You'', ''A'', ''A'']]
   = [\<lparr>space_id = ''uuid-0'', space_name = ''Cafe Group'', space_members = [''You'', ''A'']\<rparr>,
      \<lparr>space_id = ''uuid-1'', space_name = ''Mall Group'',
        space_members = [''You'', ''A'', ''A'']\<rparr>]"
  by (simp add: groupSharedSpaces_def addSharedSpace_def shared_expense_def same_members_def
      numbered_uuid_def digits.simps Let_def)

lemma members_AB_not_AA: "set [''You'', ''A'', ''B''] \<noteq> set [''You'', ''A'', ''A'']"
proof
  assume "set [''You'', ''A'', ''B''] = set [''You'', ''A'', ''A'']"
  moreover have "''B'' \<in> set [''You'', ''A'', ''B'']" by simp
  ultimately have "''B'' \<in> set [''You'', ''A'', ''A'']" by (rule subst)
  then show False by simp
qed

lemma Cafe_Mall_permuted: "mset [shared_expense ''Cafe'' [''You'', ''A'', ''A''], shared_expense ''Mall'' [''You'', ''A'', ''B'']]
     = mset [shared_expense ''Mall'' [''You'', ''A'', ''B''], shared_expense ''Cafe'' [''You'', ''A'', ''A'']]"
  by (simp add: add_mset_commute)

lemma repeated_member_twice: "\<not> distinct (member_sets (groupSharedSpaces numbered_uuid
        [shared_expense ''Cafe'' [''You'', ''A''], shared_expense ''Mall'' [''You'', ''A'', ''A'']]))"
    unfolding group_repeated_member member_sets_def by simp


lemma Cafe_Mall_order: "set (member_sets (groupSharedSpaces numbered_uuid
        [shared_expense ''Cafe'' [''You'', ''A'', ''A''], shared_expense ''Mall'' [''You'', ''A'', ''B'']]))
     \<noteq> set (member_sets (groupSharedSpaces numbered_uuid
        [shared_expense ''Mall'' [''You'', ''A'', ''B''], shared_expense ''Cafe'' [''You'', ''A'', ''A'']]))"
proof
  assume eq: "set (member_sets (groupSharedSpaces numbered_uuid
        [shared_expense ''Cafe'' [''You'', ''A'', ''A''], shared_expense ''Mall'' [''You'', ''A'', ''B'']]))
     = set (member_sets (groupSharedSpaces numbered_uuid
        [shared_expense ''Mall'' [''You'', ''A'', ''B''], shared_expense ''Cafe'' [''You'', ''A'', ''A'']]))"
  have l: "set (member_sets (groupSharedSpaces numbered_uuid
        [shared_expense ''Cafe'' [''You'', ''A'', ''A''], shared_expense ''Mall'' [''You'', ''A'', ''B'']]))
      = {set [''You'', ''A'', ''A'']}"
    unfolding group_Cafe_Mall member_sets_def by simp
  have r: "set [''You'', ''A'', ''B''] \<in> set (member_sets (groupSharedSpaces numbered_uuid
        [shared_expense ''Mall'' [''You'', ''A'', ''B''], shared_expense ''Cafe'' [''You'', ''A'', ''A'']]))"
    unfolding group_Mall_Cafe member_sets_def by simp
  from r have "set [''You'', ''A'', ''B''] \<in> {set [''You'', ''A'', ''A'']}"
    unfolding eq[symmetric] l .
  then have "set [''You'', ''A'', ''B''] = set [''You'', ''A'', ''A'']"
    by (rule singletonD)
  with members_AB_not_AA show False by (rule notE)
qed

text \<open>
  Claim C9, as stated, fails on member lists that name a member twice. The expenses
  with members \<open>You, A, A\<close> and \<open>You, A, B\<close> give one space in this order and two spaces
  in the other order, so the families of member sets differ; and the expenses with
  members \<open>You, A\<close> and \<open>You, A, A\<close> give two spaces with the same member set.
\<close>

theorem groupSharedSpaces_order_counterexample:
  "mset [shared_expense ''Cafe'' [''You'', ''A'', ''A''], shared_expense ''Mall'' [''You'', ''A'', ''B'']]
     = mset [shared_expense ''Mall'' [''You'', ''A'', ''B''], shared_expense ''Cafe'' [''You'', ''A'', ''A'']]
   \<and> set (member_sets (groupSharedSpaces numbered_uuid
        [shared_expense ''Cafe'' [''You'', ''A'', ''A''], shared_expense ''Mall'' [''You'', ''A'', ''B'']]))
     \<noteq> set (member_sets (groupSharedSpaces numbered_uuid
        [shared_expense ''Mall'' [''You'', ''A'', ''B''], shared_expense ''Cafe'' [''You'', ''A'', ''A'']]))
   \<and> \<not> distinct (member_sets (groupSharedSpaces numbered_uuid
        [shared_expense ''Cafe'' [''You'', ''A''], shared_expense ''Mall'' [''You'', ''A'', ''A'']]))"
  using Cafe_Mall_permuted Cafe_Mall_order repeated_member_twice by (intro conjI)

text \<open>
  Claim C9, amended. When no member list that takes part in the grouping names a member
  twice, the family of member sets of the spaces is the same for every permutation of
  the expense collection and for every source of identifiers, and no member set occurs
  twice among the spaces of one run.
\<close>

theorem groupSharedSpaces_order_insensitive:
  assumes "duplicate_free es" "mset es' = mset es"
  shows "set (member_sets (groupSharedSpaces uuid' es'))
           = set (member_sets (groupSharedSpaces uuid es))
       \<and> distinct (member_sets (groupSharedSpaces uuid es))"
proof -
  have s: "set es' = set es" using assms(2) by (rule mset_eq_setD)
  then have "duplicate_free es'"
    using assms(1) by (simp add: duplicate_free_def list_all_iff)
  from groupSharedSpaces_sets[OF this] groupSharedSpaces_sets[OF assms(1)] s
  show ?thesis by simp
qed

text \<open>
  Two expenses with the members \<open>You, Priya, Rohit\<close> in different orders share one space,
  and an expense with the members \<open>You, Amit\<close> gets a space of its own.
\<close>

lemma group_Priya_Rohit_Amit:
  "groupSharedSpaces numbered_uuid
     [shared_expense ''Cafe'' [''You'', ''Priya'', ''Rohit''],
      shared_expense ''Mall'' [''Rohit'', ''You'', ''Priya''],
      shared_expense ''Taxi'' [''You'', ''Amit'']]
   = [\<lparr>space_id = ''uuid-0'', space_name = ''Cafe Group'',
        space_members = [''You'', ''Priya'', ''Rohit'']\<rparr>,
      \<lparr>space_id = ''uuid-1'', space_name = ''Taxi Group'',
        space_members = [''You'', ''Amit'']\<rparr>]"
  by (simp add: groupSharedSpaces_def addSharedSpace_def shared_expense_def same_members_def
      numbered_uuid_def digits.simps Let_def)

theorem groupSharedSpaces_order_insensitive_witness:
  "duplicate_free
     [shared_expense ''Cafe'' [''You'', ''Priya'', ''Rohit''],
      shared_expense ''Mall'' [''Rohit'', ''You'', ''Priya''],
      shared_expense ''Taxi'' [''You'', ''Amit'']]
   \<and> mset [shared_expense ''Taxi'' [''You'', ''Amit''],
            shared_expense ''Mall'' [''Rohit'', ''You'', ''Priya''],
            shared_expense ''Cafe'' [''You'', ''Priya'', ''Rohit'']]
     = mset [shared_expense ''Cafe'' [''You'', ''Priya'', ''Rohit''],
             shared_expense ''Mall'' [''Rohit'', ''You'', ''Priya''],
             shared_expense ''Taxi'' [''You'', ''Amit'']]
   \<and> set (member_sets (groupSharedSpaces numbered_uuid
        [shared_expense ''Taxi'' [''You'', ''Amit''],
         shared_expense ''Mall'' [''Rohit'', ''You'', ''Priya''],
         shared_expense ''Cafe'' [''You'', ''Priya'', ''Rohit'']]))
     = {set [''You'', ''Priya'', ''Rohit''], set [''You'', ''Amit'']}"
proof -
  let ?es = "[shared_expense ''Cafe'' [''You'', ''Priya'', ''Rohit''],
      shared_expense ''Mall'' [''Rohit'', ''You'', ''Priya''],
      shared_expense ''Taxi'' [''You'', ''Amit'']]"
  let ?es' = "[shared_expense ''Taxi'' [''You'', ''Amit''],
            shared_expense ''Mall'' [''Rohit'', ''You'', ''Priya''],
            shared_expense ''Cafe'' [''You'', ''Priya'', ''Rohit'']]"
  have d: "duplicate_free ?es"
    by (simp add: duplicate_free_def space_target_def shared_expense_def)
  have m: "mset ?es' = mset ?es"
    by (simp add: add_mset_commute)
  have v: "set (member_sets (groupSharedSpaces numbered_uuid ?es))
             = {set [''You'', ''Priya'', ''Rohit''], set [''You'', ''Amit'']}"
    unfolding group_Priya_Rohit_Amit member_sets_def by simp
  show ?thesis
    using d m v groupSharedSpaces_order_insensitive[OF d m, of numbered_uuid numbered_uuid]
    by simp
qed

text \<open>
  Claim C10. A parsed receipt with more than one member makes \<open>handleReceiptParsed\<close>
  append a new space, with the identifier just drawn and the name of the vendor followed
  by \<open>Bill\<close>, to the spaces it finds, whatever they are: no existing space is looked at.
  Handing over the same receipt twice therefore leaves two spaces with one member list.
\<close>

theorem handleReceiptParsed_appends_space:
  assumes "members newExpense = Some ms" "length ms > 1"
  shows "app_sharedSpaces (handleReceiptParsed uuid newExpense st)
           = app_sharedSpaces st @
               [\<lparr>space_id = uuid, space_name = vendorName newExpense @ '' Bill'',
                 space_members = ms\<rparr>]
       \<and> app_sharedSpaces
           (handleReceiptParsed next_uuid newExpense (handleReceiptParsed uuid newExpense st))
           = app_sharedSpaces st @
               [\<lparr>space_id = uuid, space_name = vendorName newExpense @ '' Bill'',
                 space_members = ms\<rparr>,
                \<lparr>space_id = next_uuid, space_name = vendorName newExpense @ '' Bill'',
                 space_members = ms\<rparr>]"
  using assms by (simp add: handleReceiptParsed_def Let_def)

theorem handleReceiptParsed_appends_space_witness:
  "members (shared_expense ''Cafe'' [''You'', ''Priya'']) = Some [''You'', ''Priya'']
   \<and> length [''You'', ''Priya''] > 1
   \<and> app_sharedSpaces
       (handleReceiptParsed ''id-2'' (shared_expense ''Cafe'' [''You'', ''Priya''])
          (handleReceiptParsed ''id-1'' (shared_expense ''Cafe'' [''You'', ''Priya'']) empty_state))
       = [\<lparr>space_id = ''id-1'', space_name = ''Cafe Bill'', space_members = [''You'', ''Priya'']\<rparr>,
          \<lparr>space_id = ''id-2'', space_name = ''Cafe Bill'', space_members = [''You'', ''Priya'']\<rparr>]"
proof -
  have m: "members (shared_expense ''Cafe'' [''You'', ''Priya'']) = Some [''You'', ''Priya'']"
    by (simp add: shared_expense_def)
  have l: "length [''You'', ''Priya''] > 1" by simp
  have v: "vendorName (shared_expense ''Cafe'' [''You'', ''Priya'']) = ''Cafe''"
    by (simp add: shared_expense_def)
  show ?thesis
    using m l handleReceiptParsed_appends_space
      [OF m l, where uuid = "''id-1''" and next_uuid = "''id-2''" and st = empty_state]
    by (simp add: v empty_state_def)
qed


section \<open>Properties of the VendorExtractor\<close>

lemma trim_Nil: "trim [] = []"
  by (simp add: trim_def)

lemma firstVendor_Cons:
  "firstVendor (p # ps) t =
     (case accepted_vendor p t of
        Some v \<Rightarrow> Some (capitalizeWords v)
      | None \<Rightarrow> firstVendor ps t)"
  by (auto simp: accepted_vendor_def Let_def trim_Nil split: option.splits)

lemma firstVendor_index:
  "i < length ps \<Longrightarrow> accepted_vendor (ps ! i) t = Some v
   \<Longrightarrow> (\<forall>j < i. accepted_vendor (ps ! j) t = None)
   \<Longrightarrow> firstVendor ps t = Some (capitalizeWords v)"
proof (induction ps arbitrary: i)
  case Nil
  then show ?case by simp
next
  case (Cons p ps)
  show ?case
  proof (cases i)
    case 0
    with Cons.prems show ?thesis by (simp add: firstVendor_Cons del: firstVendor.simps)
  next
    case (Suc n)
    with Cons.prems have n: "n < length ps" and acc: "accepted_vendor (ps ! n) t = Some v"
      by simp_all
    have head: "accepted_vendor p t = None"
      using Cons.prems(3) Suc by (metis nth_Cons_0 zero_less_Suc)
    have earlier: "\<forall>j < n. accepted_vendor (ps ! j) t = None"
    proof (intro allI impI)
      fix j assume "j < n"
      then have "Suc j < i" using Suc by simp
      with Cons.prems(3) have "accepted_vendor ((p # ps) ! Suc j) t = None" by blast
      then show "accepted_vendor (ps ! j) t = None" by simp
    qed
    from Cons.IH[OF n acc earlier] head show ?thesis
      by (simp add: firstVendor_Cons del: firstVendor.simps)
  qed
qed

lemma firstVendor_none:
  "(\<forall>p \<in> set ps. accepted_vendor p t = None) \<Longrightarrow> firstVendor ps t = None"
  by (induction ps) (simp_all add: firstVendor_Cons del: firstVendor.simps(2))

lemma js_gt_irrefl: "\<not> js_gt a a"
  by (cases a) auto

lemma js_gt_chain: "a \<noteq> NaN \<Longrightarrow> b \<noteq> NaN \<Longrightarrow> c \<noteq> NaN \<Longrightarrow> js_gt c b \<Longrightarrow> \<not> js_gt a b \<Longrightarrow> js_gt c a"
  by (cases a; cases b; cases c) auto

lemma js_gt_asym: "js_gt a b \<Longrightarrow> \<not> js_gt b a"
  by (cases a; cases b) auto

lemma primaryItem_snoc:
  "primaryItem m (xs @ [x]) =
     (if js_gt (amount x) (amount (primaryItem m xs)) then x else primaryItem m xs)"
  by (simp add: primaryItem_def)

lemma primaryItem_first_highest:
  "items \<noteq> [] \<Longrightarrow> no_NaN items \<Longrightarrow>
     \<exists>k. first_highest items k \<and> primaryItem (hd items) items = items ! k"
proof (induction items rule: rev_induct)
  case Nil
  then show ?case by simp
next
  case (snoc x xs)
  show ?case
  proof (cases "xs = []")
    case True
    have "first_highest [x] 0 \<and> primaryItem x [x] = [x] ! 0"
      by (simp add: first_highest_def primaryItem_def js_gt_irrefl)
    then show ?thesis using True by auto
  next
    case False
    from snoc.prems(2) have nn: "no_NaN xs" and xn: "amount x \<noteq> NaN"
      by (simp_all add: no_NaN_def)
    from snoc.IH[OF False nn] obtain k where
      k: "first_highest xs k" and pk: "primaryItem (hd xs) xs = xs ! k" by blast
    from k have klt: "k < length xs" by (simp add: first_highest_def)
    have kn: "amount (xs ! k) \<noteq> NaN"
      using nn klt by (simp add: no_NaN_def list_all_length)
    have jn: "\<And>j. j < length xs \<Longrightarrow> amount (xs ! j) \<noteq> NaN"
      using nn by (simp add: no_NaN_def list_all_length)
    have hd: "hd (xs @ [x]) = hd xs" using False by simp
    show ?thesis
    proof (cases "js_gt (amount x) (amount (xs ! k))")
      case True
      have above: "\<And>j. j < length xs \<Longrightarrow> js_gt (amount x) (amount (xs ! j))"
      proof -
        fix j assume j: "j < length xs"
        with k have "\<not> js_gt (amount (xs ! j)) (amount (xs ! k))"
          by (simp add: first_highest_def)
        with True show "js_gt (amount x) (amount (xs ! j))"
          using js_gt_chain[OF jn[OF j] kn xn] by blast
      qed
      have "first_highest (xs @ [x]) (length xs)"
        unfolding first_highest_def
        using above js_gt_asym js_gt_irrefl
        by (auto simp: nth_append less_Suc_eq)
      moreover have "primaryItem (hd (xs @ [x])) (xs @ [x]) = (xs @ [x]) ! length xs"
        using True pk by (simp add: hd primaryItem_snoc)
      ultimately show ?thesis by blast
    next
      case False
      have "first_highest (xs @ [x]) k"
        using k False klt unfolding first_highest_def
        by (auto simp: nth_append less_Suc_eq)
      moreover have "primaryItem (hd (xs @ [x])) (xs @ [x]) = (xs @ [x]) ! k"
        using False pk klt by (simp add: hd primaryItem_snoc nth_append)
      ultimately show ?thesis by blast
    qed
  qed
qed

lemma vendorFallback_char:
  assumes "items \<noteq> []" "no_NaN items"
  shows "\<exists>k. first_highest items k \<and>
           vendorFallback items =
             (if length (description (items ! k)) < 30
              then capitalizeWords (description (items ! k)) else ''Expense'')"
proof -
  from primaryItem_first_highest[OF assms] obtain k where
    k: "first_highest items k" "primaryItem (hd items) items = items ! k" by blast
  obtain first rest where "items = first # rest" using assms(1) by (cases items) auto
  then have "vendorFallback items =
             (if length (description (items ! k)) < 30
              then capitalizeWords (description (items ! k)) else ''Expense'')"
    using k(2) by (simp add: vendorFallback_def Let_def)
  with k(1) show ?thesis by blast
qed

text \<open>
  What \<open>capitalizeWords\<close> does to a token, to a token followed by a separator, and to a
  separator: the three equations determine it on every text.
\<close>

lemma all_chars_upper:
  "list_all (\<lambda>c. toUpperCase_char c = upper_case c) (Enum.enum :: char list)"
  by code_simp

lemma toUpperCase_char_upper: "toUpperCase_char c = upper_case c"
proof -
  have "c \<in> set (Enum.enum :: char list)" by (simp add: enum_UNIV)
  with all_chars_upper show ?thesis by (simp add: list_all_iff)
qed

lemma capitalizeWords_token:
  assumes "list_all is_word_char w" "w \<noteq> []"
  shows "capitalizeWords w = toUpperCase_char (hd w) # map toLowerCase_char (tl w)"
proof -
  obtain c cs where w: "w = c # cs" using assms(2) by (cases w) auto
  with assms(1) have c: "is_word_char c" and cs: "list_all is_word_char cs" by simp_all
  from cs have allw: "\<forall>x \<in> set cs. is_word_char x" by (simp add: list_all_iff)
  have tw: "takeWhile is_word_char cs = cs" using allw by simp
  have dw: "dropWhile is_word_char cs = []" using allw by simp
  show ?thesis unfolding w using c by (simp add: tw dw)
qed

lemma capitalizeWords_token_then:
  assumes "list_all is_word_char w" "w \<noteq> []" "\<not> is_word_char d"
  shows "capitalizeWords (w @ d # rest) = capitalizeWords w @ d # capitalizeWords rest"
proof -
  obtain c cs where w: "w = c # cs" using assms(2) by (cases w) auto
  with assms(1) have c: "is_word_char c" and cs: "list_all is_word_char cs" by simp_all
  from cs have allw: "\<forall>x \<in> set cs. is_word_char x" by (simp add: list_all_iff)
  have tw: "takeWhile is_word_char (cs @ d # rest) = cs"
    using allw assms(3) by simp
  have dw: "dropWhile is_word_char (cs @ d # rest) = d # rest"
    using allw assms(3) by simp
  have tok: "capitalizeWords (c # cs) = toUpperCase_char c # map toLowerCase_char cs"
    using capitalizeWords_token[OF assms(1,2)] w by simp
  have "capitalizeWords ((c # cs) @ d # rest) =
          toUpperCase_char c # map toLowerCase_char cs @ capitalizeWords (d # rest)"
    using c by (simp add: tw dw del: capitalizeWords.simps(2) add: capitalizeWords.simps(2)[of c "cs @ d # rest"])
  also have "capitalizeWords (d # rest) = d # capitalizeWords rest"
    using assms(3) by simp
  finally show ?thesis unfolding w tok by simp
qed

lemma capitalizeWords_separator:
  "\<not> is_word_char d \<Longrightarrow> capitalizeWords (d # rest) = d # capitalizeWords rest"
  by simp

lemma extractVendorName_total: "\<exists>vendor. extractVendorName t (Some items) = Inr vendor"
  by (auto simp: extractVendorName_def split: option.splits)

lemma extractVendorName_error: "extractVendorName t items = Inl err \<Longrightarrow> items = None"
  by (auto simp: extractVendorName_def split: option.splits)

lemma firstVendor_Big_Bazaar:
  "firstVendor vendorPatterns ''Yesterday I went to Big Bazaar with Priya'' = Some ''Big Bazaar''"
  by code_simp

lemma firstVendor_Chai: "firstVendor vendorPatterns ''Chai'' = None"
  by code_simp

lemma match_at_ab: "match_first (vendorPatterns ! 0) ''at ab  '' = Some (Some ''ab  '')"
  by code_simp

lemma extract_at_ab: "extractVendorName ''at ab  '' (Some []) = Inr ''Expense''"
  by code_simp

lemma extract_tea_NaN:
  "extractVendorName ''Chai''
     (Some [item_with ''tea'' NaN [], item_with ''dinner'' (Fin 500) []]) = Inr ''Tea''"
  by code_simp

text \<open>
  Claim C6, as stated, fails in two places. Where the captured text ends in white space:
  in \<open>at ab\<close> followed by two spaces the first pattern captures four characters, a
  length strictly between 2 and 50, and yet no vendor is taken from it (the result is
  \<open>Expense\<close>), because the length that is tested is that of the trimmed text, which is 2.
  And where an amount is NaN: with the line items \<open>tea\<close> at NaN and \<open>dinner\<close> at 500 and no
  pattern matching, the result is \<open>Tea\<close> and not the description of the item with the
  highest price, because no amount compares greater than NaN.
\<close>

theorem extractVendorName_trim_counterexample:
  "match_first (vendorPatterns ! 0) ''at ab  '' = Some (Some ''ab  '')
   \<and> 2 < length ''ab  '' \<and> length ''ab  '' < 50
   \<and> extractVendorName ''at ab  '' (Some []) = Inr ''Expense''
   \<and> firstVendor vendorPatterns ''Chai'' = None
   \<and> extractVendorName ''Chai''
        (Some [item_with ''tea'' NaN [], item_with ''dinner'' (Fin 500) []]) = Inr ''Tea''"
  using match_at_ab extract_at_ab firstVendor_Chai extract_tea_NaN by simp

text \<open>
  Claim C6, amended. The patterns are tried in their order. Each contributes the
  captured text of its leftmost match, trimmed; the first pattern whose trimmed text has
  more than 2 and fewer than 50 characters wins and that text is returned
  word-capitalized. Word-capitalizing leaves the empty text empty, copies a character
  that is not a word character (a word character is an English letter, a digit or the
  underscore), and turns a run of word characters that ends the text or is followed by
  another character into its first character in upper case and its other characters in
  lower case, both by character code. When no pattern contributes, the result for an
  array of line items is the fallback: \<open>Expense\<close> for no items; otherwise, when no
  amount is NaN, the line item at the first position that holds the highest amount
  decides, its description word-capitalized when shorter than 30 characters and
  \<open>Expense\<close> when not. For every text (of code units below U+0100) and every array of
  line items the result is a string. For the text \<open>Yesterday I went to Big Bazaar with Priya\<close> it is
  \<open>Big Bazaar\<close>.
\<close>

theorem extractVendorName_priority:
  "(i < length vendorPatterns
      \<and> accepted_vendor (vendorPatterns ! i) originalText = Some v
      \<and> (\<forall>j < i. accepted_vendor (vendorPatterns ! j) originalText = None)
     \<longrightarrow> extractVendorName originalText (Some items) = Inr (capitalizeWords v))
   \<and> ((\<forall>p \<in> set vendorPatterns. accepted_vendor p originalText = None)
     \<longrightarrow> extractVendorName originalText (Some items) = Inr (vendorFallback items))
   \<and> vendorFallback [] = ''Expense''
   \<and> (items \<noteq> [] \<and> no_NaN items
     \<longrightarrow> (\<exists>k. first_highest items k
            \<and> vendorFallback items =
                (if length (description (items ! k)) < 30
                 then capitalizeWords (description (items ! k)) else ''Expense'')))
   \<and> (\<exists>vendor. extractVendorName originalText (Some items) = Inr vendor)
   \<and> extractVendorName ''Yesterday I went to Big Bazaar with Priya'' (Some items)
       = Inr ''Big Bazaar''
   \<and> capitalizeWords [] = []
   \<and> (list_all is_word_char w \<and> w \<noteq> []
     \<longrightarrow> capitalizeWords w = upper_case (hd w) # map fold_case (tl w))
   \<and> (list_all is_word_char w \<and> w \<noteq> [] \<and> \<not> is_word_char sep
     \<longrightarrow> capitalizeWords (w @ sep # rest) = capitalizeWords w @ sep # capitalizeWords rest)
   \<and> (\<not> is_word_char sep \<longrightarrow> capitalizeWords (sep # rest) = sep # capitalizeWords rest)
   \<and> capitalizeWords ''bIG bazaar_2, rOAD'' = ''Big Bazaar_2, Road''"
proof -
  have first: "i < length vendorPatterns
      \<and> accepted_vendor (vendorPatterns ! i) originalText = Some v
      \<and> (\<forall>j < i. accepted_vendor (vendorPatterns ! j) originalText = None)
     \<longrightarrow> extractVendorName originalText (Some items) = Inr (capitalizeWords v)"
    using firstVendor_index[of i vendorPatterns originalText v]
    by (simp add: extractVendorName_def)
  have none: "(\<forall>p \<in> set vendorPatterns. accepted_vendor p originalText = None)
     \<longrightarrow> extractVendorName originalText (Some items) = Inr (vendorFallback items)"
    using firstVendor_none[of vendorPatterns originalText]
    by (simp add: extractVendorName_def)
  have empty: "vendorFallback [] = ''Expense''"
    by (simp add: vendorFallback_def)
  have fallback: "items \<noteq> [] \<and> no_NaN items
     \<longrightarrow> (\<exists>k. first_highest items k
            \<and> vendorFallback items =
                (if length (description (items ! k)) < 30
                 then capitalizeWords (description (items ! k)) else ''Expense''))"
    using vendorFallback_char[of items] by blast
  have example: "extractVendorName ''Yesterday I went to Big Bazaar with Priya'' (Some items)
       = Inr ''Big Bazaar''"
    by (simp add: extractVendorName_def firstVendor_Big_Bazaar)
  have "map toLowerCase_char (tl w) = map fold_case (tl w)"
    by (simp add: toLowerCase_char_fold)
  then have token: "list_all is_word_char w \<and> w \<noteq> []
     \<longrightarrow> capitalizeWords w = upper_case (hd w) # map fold_case (tl w)"
    using capitalizeWords_token[of w] toUpperCase_char_upper[of "hd w"] by simp
  have token_then: "list_all is_word_char w \<and> w \<noteq> [] \<and> \<not> is_word_char sep
     \<longrightarrow> capitalizeWords (w @ sep # rest) = capitalizeWords w @ sep # capitalizeWords rest"
    using capitalizeWords_token_then[of w sep rest] by blast
  have separator: "\<not> is_word_char sep \<longrightarrow> capitalizeWords (sep # rest) = sep # capitalizeWords rest"
    using capitalizeWords_separator[of sep rest] by blast
  have mixed: "capitalizeWords ''bIG bazaar_2, rOAD'' = ''Big Bazaar_2, Road''"
    by code_simp
  have nil: "capitalizeWords [] = []" by simp
  show ?thesis
    using first none empty fallback extractVendorName_total[of originalText items] example
      nil token token_then separator mixed
    by (intro conjI)
qed

lemma accepted_went_to:
  "accepted_vendor (vendorPatterns ! 1) ''Yesterday I went to Big Bazaar with Priya''
     = Some ''Big Bazaar''"
  by code_simp

lemma rejected_at:
  "accepted_vendor (vendorPatterns ! 0) ''Yesterday I went to Big Bazaar with Priya'' = None"
  by code_simp

lemma accepted_pizza_hut:
  "accepted_vendor (vendorPatterns ! 0) ''lunch at  pizza hUT  '' = Some ''pizza hUT''"
  by code_simp

lemma capitalized_pizza_hut: "capitalizeWords ''pizza hUT'' = ''Pizza Hut''"
  by code_simp

lemma Chai_no_pattern: "list_all (\<lambda>p. accepted_vendor p ''Chai'' = None) vendorPatterns"
  by code_simp

lemma fallback_masala_chai:
  "vendorFallback [item_with ''masala chai'' (Fin 40) [], item_with ''samosa'' (Fin 40) []]
     = ''Masala Chai''"
  by code_simp

lemma fallback_dinner:
  "vendorFallback [item_with ''tea'' (Fin 20) [], item_with ''DINNER special'' (Fin 500) [],
                   item_with ''cab'' (Fin 500) []]
     = ''Dinner Special''"
  by code_simp

lemma word_hUT: "list_all is_word_char ''hUT''"
  by code_simp

lemma hUT_parts: "upper_case (hd ''hUT'') # map fold_case (tl ''hUT'') = ''Hut''"
  by code_simp

text \<open>A vendor of two words with a no-break space between them.\<close>

lemma accepted_no_break:
  "accepted_vendor (vendorPatterns ! 0) (''at big'' @ CHR 0xA0 # ''bazaar'')
     = Some (''big'' @ CHR 0xA0 # ''bazaar'')"
  by code_simp

lemma capitalized_no_break:
  "capitalizeWords (''big'' @ CHR 0xA0 # ''bazaar'') = ''Big'' @ CHR 0xA0 # ''Bazaar''"
  by code_simp

lemma word_pizza: "list_all is_word_char ''pizza''"
  by code_simp

lemma pizza_parts: "upper_case (hd ''pizza'') # map fold_case (tl ''pizza'') = ''Pizza''"
  by code_simp

theorem extractVendorName_priority_witness:
  "1 < length vendorPatterns
   \<and> accepted_vendor (vendorPatterns ! 1) ''Yesterday I went to Big Bazaar with Priya''
       = Some ''Big Bazaar''
   \<and> accepted_vendor (vendorPatterns ! 0) ''Yesterday I went to Big Bazaar with Priya'' = None
   \<and> extractVendorName ''Yesterday I went to Big Bazaar with Priya'' (Some [])
       = Inr (capitalizeWords ''Big Bazaar'')
   \<and> accepted_vendor (vendorPatterns ! 0) ''lunch at  pizza hUT  '' = Some ''pizza hUT''
   \<and> extractVendorName ''lunch at  pizza hUT  '' (Some []) = Inr ''Pizza Hut''
   \<and> list_all (\<lambda>p. accepted_vendor p ''Chai'' = None) vendorPatterns
   \<and> extractVendorName ''Chai''
        (Some [item_with ''masala chai'' (Fin 40) [], item_with ''samosa'' (Fin 40) []])
       = Inr ''Masala Chai''
   \<and> extractVendorName ''Chai''
        (Some [item_with ''tea'' (Fin 20) [], item_with ''DINNER special'' (Fin 500) [],
               item_with ''cab'' (Fin 500) []])
       = Inr ''Dinner Special''
   \<and> [item_with ''masala chai'' (Fin 40) [], item_with ''samosa'' (Fin 40) []] \<noteq> []
   \<and> no_NaN [item_with ''masala chai'' (Fin 40) [], item_with ''samosa'' (Fin 40) []]
   \<and> (\<exists>k. first_highest
              [item_with ''masala chai'' (Fin 40) [], item_with ''samosa'' (Fin 40) []] k)
   \<and> list_all is_word_char ''hUT'' \<and> capitalizeWords ''hUT'' = ''Hut''
   \<and> \<not> is_word_char CHR '' '' \<and> capitalizeWords '' hUT'' = '' Hut''
   \<and> list_all is_word_char ''pizza''
   \<and> capitalizeWords (''pizza'' @ CHR '' '' # ''hUT'') = ''Pizza Hut''
   \<and> accepted_vendor (vendorPatterns ! 0) (''at big'' @ CHR 0xA0 # ''bazaar'')
       = Some (''big'' @ CHR 0xA0 # ''bazaar'')
   \<and> extractVendorName (''at big'' @ CHR 0xA0 # ''bazaar'') (Some [])
       = Inr (''Big'' @ CHR 0xA0 # ''Bazaar'')"
proof -
  let ?t = "''Yesterday I went to Big Bazaar with Priya''"
  let ?p = "''lunch at  pizza hUT  ''"
  let ?items = "[item_with ''masala chai'' (Fin 40) [], item_with ''samosa'' (Fin 40) []]"
  let ?later = "[item_with ''tea'' (Fin 20) [], item_with ''DINNER special'' (Fin 500) [],
               item_with ''cab'' (Fin 500) []]"
  have len: "1 < length vendorPatterns" "0 < length vendorPatterns"
    by (simp_all add: vendorPatterns_def)
  have earlier: "\<forall>j < 1. accepted_vendor (vendorPatterns ! j) ?t = None"
    using rejected_at by simp
  have none: "\<forall>p \<in> set vendorPatterns. accepted_vendor p ''Chai'' = None"
    using Chai_no_pattern by (simp add: list_all_iff)
  have nn: "?items \<noteq> [] \<and> no_NaN ?items"
    by (simp add: no_NaN_def item_with_def)
  have a: "extractVendorName ?t (Some []) = Inr (capitalizeWords ''Big Bazaar'')"
    using extractVendorName_priority[of 1 ?t "''Big Bazaar''" "[]" "[]" "CHR ''x''" "[]"]
      len accepted_went_to earlier
    by blast
  have a0: "extractVendorName ?p (Some []) = Inr (capitalizeWords ''pizza hUT'')"
    using extractVendorName_priority[of 0 ?p "''pizza hUT''" "[]" "[]" "CHR ''x''" "[]"]
      len accepted_pizza_hut
    by blast
  have a': "extractVendorName ?p (Some []) = Inr ''Pizza Hut''"
    using a0 by (simp only: capitalized_pizza_hut)
  have b0: "extractVendorName ''Chai'' (Some ?items) = Inr (vendorFallback ?items)"
    using extractVendorName_priority[of 0 "''Chai''" "[]" ?items "[]" "CHR ''x''" "[]"] none
    by blast
  have b: "extractVendorName ''Chai'' (Some ?items) = Inr ''Masala Chai''"
    using b0 by (simp only: fallback_masala_chai)
  have b0': "extractVendorName ''Chai'' (Some ?later) = Inr (vendorFallback ?later)"
    using extractVendorName_priority[of 0 "''Chai''" "[]" ?later "[]" "CHR ''x''" "[]"] none
    by blast
  have b': "extractVendorName ''Chai'' (Some ?later) = Inr ''Dinner Special''"
    using b0' by (simp only: fallback_dinner)
  have c: "\<exists>k. first_highest ?items k"
    using extractVendorName_priority[of 0 "''Chai''" "[]" ?items "[]" "CHR ''x''" "[]"] nn
    by blast
  have sp: "\<not> is_word_char CHR '' ''"
    by code_simp
  have ne: "''hUT'' \<noteq> []"
    by simp
  have d0: "capitalizeWords ''hUT'' = upper_case (hd ''hUT'') # map fold_case (tl ''hUT'')"
    using extractVendorName_priority[of 0 "''Chai''" "[]" "[]" "''hUT''" "CHR ''x''" "[]"]
      word_hUT ne
    by blast
  have d: "capitalizeWords ''hUT'' = ''Hut''"
    using d0 by (simp only: hUT_parts)
  have e0: "capitalizeWords (CHR '' '' # ''hUT'') = CHR '' '' # capitalizeWords ''hUT''"
    using extractVendorName_priority[of 0 "''Chai''" "[]" "[]" "''hUT''" "CHR '' ''" "''hUT''"] sp
    by blast
  have e: "capitalizeWords '' hUT'' = '' Hut''"
    using e0 by (simp only: d)
  have h0: "extractVendorName (''at big'' @ CHR 0xA0 # ''bazaar'') (Some [])
              = Inr (capitalizeWords (''big'' @ CHR 0xA0 # ''bazaar''))"
    using extractVendorName_priority[of 0 "''at big'' @ CHR 0xA0 # ''bazaar''"
        "''big'' @ CHR 0xA0 # ''bazaar''" "[]" "[]" "CHR ''x''" "[]"]
      len accepted_no_break
    by blast
  have h: "extractVendorName (''at big'' @ CHR 0xA0 # ''bazaar'') (Some [])
             = Inr (''Big'' @ CHR 0xA0 # ''Bazaar'')"
    using h0 by (simp only: capitalized_no_break)
  have np: "''pizza'' \<noteq> []"
    by simp
  have f0: "capitalizeWords ''pizza'' = upper_case (hd ''pizza'') # map fold_case (tl ''pizza'')"
    using extractVendorName_priority[of 0 "''Chai''" "[]" "[]" "''pizza''" "CHR ''x''" "[]"]
      word_pizza np
    by blast
  have f: "capitalizeWords ''pizza'' = ''Pizza''"
    using f0 by (simp only: pizza_parts)
  have g0: "capitalizeWords (''pizza'' @ CHR '' '' # ''hUT'')
              = capitalizeWords ''pizza'' @ CHR '' '' # capitalizeWords ''hUT''"
    using extractVendorName_priority[of 0 "''Chai''" "[]" "[]" "''pizza''" "CHR '' ''" "''hUT''"]
      word_pizza np sp
    by blast
  have g: "capitalizeWords (''pizza'' @ CHR '' '' # ''hUT'') = ''Pizza Hut''"
    using g0 by (simp add: f d del: capitalizeWords.simps)
  show ?thesis
    using len(1) accepted_went_to rejected_at a accepted_pizza_hut a' Chai_no_pattern b b'
      conjunct1[OF nn] conjunct2[OF nn] c word_hUT d sp e word_pizza g accepted_no_break h
    by (intro conjI)
qed


section \<open>Properties of the Canonicalizer\<close>

lemma cleanParticipantsOf_Inl_iff:
  "(\<exists>err. cleanParticipantsOf clean raw = Inl err) \<longleftrightarrow> (clean = None \<and> raw = None)"
  by (auto simp: cleanParticipantsOf_def split: option.splits)

lemma convert_Inr:
  assumes "cleanParticipantsOf (clean_participants (parsed_data be))
             (participants (parsed_data be)) = Inr cs"
      and "line_items (parsed_data be) = Some items"
  shows "\<exists>e. convertBackendExpenseToFrontend be = Inr e
            \<and> totalAmount e = total_amount (parsed_data be)
            \<and> etype e = (if (case is_shared (parsed_data be) of
                                Some b \<Rightarrow> b | None \<Rightarrow> length cs > 0)
                          then shared else personal)
            \<and> members e = (if etype e = shared then Some (''You'' # cs) else None)"
proof -
  obtain v where v: "extractVendorName (original_text be) (Some items) = Inr v"
    using extractVendorName_total by blast
  show ?thesis
    using assms v by (simp add: convertBackendExpenseToFrontend_def Let_def)
qed

lemma convert_Inl_iff:
  "(\<exists>err. convertBackendExpenseToFrontend be = Inl err) \<longleftrightarrow>
     (line_items (parsed_data be) = None
      \<or> (clean_participants (parsed_data be) = None \<and> participants (parsed_data be) = None))"
proof (cases "cleanParticipantsOf (clean_participants (parsed_data be))
                (participants (parsed_data be))")
  case (Inl err)
  then have "clean_participants (parsed_data be) = None \<and> participants (parsed_data be) = None"
    using cleanParticipantsOf_Inl_iff by blast
  moreover have "convertBackendExpenseToFrontend be = Inl err"
    using Inl by (simp add: convertBackendExpenseToFrontend_def Let_def)
  ultimately show ?thesis by blast
next
  case (Inr cs)
  then have present:
    "\<not> (clean_participants (parsed_data be) = None \<and> participants (parsed_data be) = None)"
    using cleanParticipantsOf_Inl_iff[of "clean_participants (parsed_data be)"
        "participants (parsed_data be)"] by auto
  show ?thesis
  proof (cases "line_items (parsed_data be)")
    case None
    have "\<exists>err. convertBackendExpenseToFrontend be = Inl err"
      using Inr None
      by (cases "extractVendorName (original_text be) None")
         (simp_all add: convertBackendExpenseToFrontend_def Let_def)
    then show ?thesis using None by blast
  next
    case (Some items)
    from convert_Inr[OF Inr Some] obtain e where "convertBackendExpenseToFrontend be = Inr e"
      by blast
    then show ?thesis using Some present by auto
  qed
qed

lemma convert_result:
  assumes "convertBackendExpenseToFrontend be = Inr e"
  shows "\<exists>cs. cleanParticipantsOf (clean_participants (parsed_data be))
                 (participants (parsed_data be)) = Inr cs
            \<and> totalAmount e = total_amount (parsed_data be)
            \<and> etype e = (if (case is_shared (parsed_data be) of
                                Some b \<Rightarrow> b | None \<Rightarrow> length cs > 0)
                          then shared else personal)
            \<and> members e = (if etype e = shared then Some (''You'' # cs) else None)"
proof -
  have no_err: "\<not> (\<exists>err. convertBackendExpenseToFrontend be = Inl err)"
    using assms by simp
  then have ok: "\<not> (line_items (parsed_data be) = None
      \<or> (clean_participants (parsed_data be) = None \<and> participants (parsed_data be) = None))"
    using convert_Inl_iff[of be] by simp
  from ok have li: "line_items (parsed_data be) \<noteq> None" by simp
  from ok have present: "\<not> (clean_participants (parsed_data be) = None
                      \<and> participants (parsed_data be) = None)" by simp
  from li obtain items where items: "line_items (parsed_data be) = Some items" by blast
  from present obtain cs where cs: "cleanParticipantsOf (clean_participants (parsed_data be))
                 (participants (parsed_data be)) = Inr cs"
    using cleanParticipantsOf_Inl_iff[of "clean_participants (parsed_data be)"
        "participants (parsed_data be)"]
    by (cases "cleanParticipantsOf (clean_participants (parsed_data be))
                 (participants (parsed_data be))") auto
  from convert_Inr[OF cs items] assms cs show ?thesis by auto
qed

lemma convert_You_Priya:
  "\<exists>e. convertBackendExpenseToFrontend
          (stored_expense (raw_parse (Some [''You'', ''Priya'']) None (Some []) (Fin 100))) = Inr e
       \<and> etype e = shared \<and> members e = Some [''You'', ''You'', ''Priya'']"
proof -
  let ?be = "stored_expense (raw_parse (Some [''You'', ''Priya'']) None (Some []) (Fin 100))"
  have cs: "cleanParticipantsOf (clean_participants (parsed_data ?be))
              (participants (parsed_data ?be)) = Inr [''You'', ''Priya'']"
    by (simp add: stored_expense_def raw_parse_def cleanParticipantsOf_def)
  have li: "line_items (parsed_data ?be) = Some []"
    by (simp add: stored_expense_def raw_parse_def)
  have sh: "is_shared (parsed_data ?be) = None"
    by (simp add: stored_expense_def raw_parse_def)
  from convert_Inr[OF cs li] obtain e where
    e: "convertBackendExpenseToFrontend ?be = Inr e" and t: "etype e = shared"
    and m: "members e = (if etype e = shared then Some (''You'' # [''You'', ''Priya'']) else None)"
    by (auto simp: sh)
  from m t have "members e = Some [''You'', ''You'', ''Priya'']" by simp
  with e t show ?thesis by blast
qed

text \<open>
  Claim C1, as stated, fails when the clean participants themselves contain \<open>You\<close>:
  the raw parse with the clean participants \<open>You\<close> and \<open>Priya\<close> is accepted, the result
  is shared, and its members list holds \<open>You\<close> twice.
\<close>

theorem convert_members_counterexample:
  "\<not> isl (convertBackendExpenseToFrontend
            (stored_expense (raw_parse (Some [''You'', ''Priya'']) None (Some []) (Fin 100))))
   \<and> etype (projr (convertBackendExpenseToFrontend
            (stored_expense (raw_parse (Some [''You'', ''Priya'']) None (Some []) (Fin 100)))))
       = shared
   \<and> members (projr (convertBackendExpenseToFrontend
            (stored_expense (raw_parse (Some [''You'', ''Priya'']) None (Some []) (Fin 100)))))
       = Some [''You'', ''You'', ''Priya'']
   \<and> count_list [''You'', ''You'', ''Priya''] ''You'' = 2"
proof -
  obtain e where e: "convertBackendExpenseToFrontend
          (stored_expense (raw_parse (Some [''You'', ''Priya'']) None (Some []) (Fin 100))) = Inr e"
       "etype e = shared" "members e = Some [''You'', ''You'', ''Priya'']"
    using convert_You_Priya by blast
  show ?thesis unfolding e(1) using e(2,3) by simp
qed

text \<open>
  Claim C1, amended. For every raw parse the Canonicalizer accepts, the type of the
  returned expense is \<open>personal\<close> or \<open>shared\<close>; when it is \<open>shared\<close> the members are \<open>You\<close>
  followed by the clean participants, so the list is not empty and begins with \<open>You\<close>,
  and it holds \<open>You\<close> exactly once if and only if the clean participants do not hold
  \<open>You\<close>.
\<close>

theorem convert_type_and_members:
  assumes "convertBackendExpenseToFrontend be = Inr e"
  shows "(etype e = personal \<or> etype e = shared)
       \<and> (etype e = shared \<longrightarrow>
            (\<exists>cs. cleanParticipantsOf (clean_participants (parsed_data be))
                     (participants (parsed_data be)) = Inr cs
                 \<and> members e = Some (''You'' # cs)
                 \<and> ''You'' # cs \<noteq> []
                 \<and> (count_list (''You'' # cs) ''You'' = 1 \<longleftrightarrow> ''You'' \<notin> set cs)))"
proof -
  from convert_result[OF assms] obtain cs where
    cs: "cleanParticipantsOf (clean_participants (parsed_data be))
           (participants (parsed_data be)) = Inr cs"
    and m: "members e = (if etype e = shared then Some (''You'' # cs) else None)"
    by blast
  have kind: "etype e = personal \<or> etype e = shared"
    by (cases "etype e") simp_all
  have once: "count_list (''You'' # cs) ''You'' = 1 \<longleftrightarrow> ''You'' \<notin> set cs"
    by (simp add: count_list_0_iff)
  show ?thesis using kind cs m once by auto
qed

theorem convert_type_and_members_witness:
  "\<exists>e. convertBackendExpenseToFrontend
          (stored_expense (raw_parse (Some [''Rohit'', ''Priya'']) None (Some []) (Fin 100))) = Inr e
       \<and> etype e = shared
       \<and> members e = Some [''You'', ''Rohit'', ''Priya'']"
proof -
  let ?be = "stored_expense (raw_parse (Some [''Rohit'', ''Priya'']) None (Some []) (Fin 100))"
  have cs: "cleanParticipantsOf (clean_participants (parsed_data ?be))
              (participants (parsed_data ?be)) = Inr [''Rohit'', ''Priya'']"
    by (simp add: stored_expense_def raw_parse_def cleanParticipantsOf_def)
  have li: "line_items (parsed_data ?be) = Some []"
    by (simp add: stored_expense_def raw_parse_def)
  have sh: "is_shared (parsed_data ?be) = None"
    by (simp add: stored_expense_def raw_parse_def)
  from convert_Inr[OF cs li] obtain e where
    e: "convertBackendExpenseToFrontend ?be = Inr e" and t: "etype e = shared"
    by (auto simp: sh)
  from convert_type_and_members[OF e] t cs
  have "members e = Some [''You'', ''Rohit'', ''Priya'']" by auto
  with e t show ?thesis by blast
qed

lemma convert_NaN_total:
  "\<exists>e. convertBackendExpenseToFrontend
          (stored_expense (raw_parse (Some [''Rohit'', ''Priya'']) None (Some []) NaN)) = Inr e
       \<and> totalAmount e = NaN"
proof -
  let ?be = "stored_expense (raw_parse (Some [''Rohit'', ''Priya'']) None (Some []) NaN)"
  have cs: "cleanParticipantsOf (clean_participants (parsed_data ?be))
              (participants (parsed_data ?be)) = Inr [''Rohit'', ''Priya'']"
    by (simp add: stored_expense_def raw_parse_def cleanParticipantsOf_def)
  have li: "line_items (parsed_data ?be) = Some []"
    by (simp add: stored_expense_def raw_parse_def)
  have tot: "total_amount (parsed_data ?be) = NaN"
    by (simp add: stored_expense_def raw_parse_def)
  from convert_Inr[OF cs li] show ?thesis by (auto simp: tot)
qed

text \<open>
  Claim C2, as stated, fails for a total that is not a finite number: the raw parse with
  line items and the total NaN is not rejected, the Canonicalizer returns an expense
  whose total amount is NaN.
\<close>

theorem convert_total_counterexample:
  "\<not> isFinite (total_amount (raw_parse (Some [''Rohit'', ''Priya'']) None (Some []) NaN))
   \<and> \<not> isl (convertBackendExpenseToFrontend
            (stored_expense (raw_parse (Some [''Rohit'', ''Priya'']) None (Some []) NaN)))
   \<and> totalAmount (projr (convertBackendExpenseToFrontend
            (stored_expense (raw_parse (Some [''Rohit'', ''Priya'']) None (Some []) NaN))))
       = NaN"
proof -
  obtain e where e: "convertBackendExpenseToFrontend
          (stored_expense (raw_parse (Some [''Rohit'', ''Priya'']) None (Some []) NaN)) = Inr e"
       "totalAmount e = NaN"
    using convert_NaN_total by blast
  show ?thesis unfolding e(1) using e(2) by (simp add: raw_parse_def isFinite_def)
qed

text \<open>
  Claim C2, amended. The Canonicalizer has no check of its own and no ParseError. It
  fails, with a TypeError of the runtime, exactly when \<open>line_items\<close> is absent or when
  \<open>clean_participants\<close> and \<open>participants\<close> are both absent, and then returns no expense.
  The total amount is never inspected: whenever an expense is returned, its total
  amount is the \<open>total_amount\<close> of the raw parse, finite or not.
\<close>

theorem convert_fails_iff:
  "((\<exists>err. convertBackendExpenseToFrontend be = Inl err) \<longleftrightarrow>
      (line_items (parsed_data be) = None
       \<or> (clean_participants (parsed_data be) = None \<and> participants (parsed_data be) = None)))
   \<and> (convertBackendExpenseToFrontend be = Inl err \<longrightarrow> err = TypeError)
   \<and> (convertBackendExpenseToFrontend be = Inr e \<longrightarrow>
        totalAmount e = total_amount (parsed_data be))"
proof -
  have a: "convertBackendExpenseToFrontend be = Inr e \<longrightarrow>
        totalAmount e = total_amount (parsed_data be)"
    using convert_result[of be e] by blast
  have b: "err = TypeError" by (cases err) simp
  show ?thesis using convert_Inl_iff[of be] a b by blast
qed

theorem convert_fails_iff_witness:
  "convertBackendExpenseToFrontend
     (stored_expense (raw_parse (Some [''Rohit'', ''Priya'']) None None (Fin 100)))
     = Inl TypeError
   \<and> (\<exists>e. convertBackendExpenseToFrontend
          (stored_expense (raw_parse (Some [''Rohit'', ''Priya'']) None (Some []) PosInf)) = Inr e
        \<and> totalAmount e = PosInf)"
proof -
  let ?absent = "stored_expense (raw_parse (Some [''Rohit'', ''Priya'']) None None (Fin 100))"
  let ?inf = "stored_expense (raw_parse (Some [''Rohit'', ''Priya'']) None (Some []) PosInf)"
  let ?any = "shared_expense [] []"
  have la: "line_items (parsed_data ?absent) = None"
    by (simp add: stored_expense_def raw_parse_def)
  have "\<exists>err. convertBackendExpenseToFrontend ?absent = Inl err"
    using convert_fails_iff[of ?absent TypeError ?any, THEN conjunct1] la by simp
  then obtain err where err: "convertBackendExpenseToFrontend ?absent = Inl err" ..
  have "err = TypeError"
    using convert_fails_iff[of ?absent err ?any, THEN conjunct2, THEN conjunct1] err by simp
  with err have first: "convertBackendExpenseToFrontend ?absent = Inl TypeError" by simp
  have li: "line_items (parsed_data ?inf) = Some []"
    and cp: "clean_participants (parsed_data ?inf) = Some [''Rohit'', ''Priya'']"
    and tot: "total_amount (parsed_data ?inf) = PosInf"
    by (simp_all add: stored_expense_def raw_parse_def)
  have "\<not> (\<exists>err. convertBackendExpenseToFrontend ?inf = Inl err)"
    using convert_fails_iff[of ?inf TypeError ?any, THEN conjunct1] li cp by simp
  then obtain e where e: "convertBackendExpenseToFrontend ?inf = Inr e"
    by (cases "convertBackendExpenseToFrontend ?inf") auto
  have "totalAmount e = total_amount (parsed_data ?inf)"
    using convert_fails_iff[of ?inf TypeError e, THEN conjunct2, THEN conjunct2] e by simp
  then have "totalAmount e = PosInf" using tot by simp
  with e first show ?thesis by blast
qed

text \<open>
  The Canonicalizer itself takes an explicit \<open>is_shared\<close> as it is, and falls back to the
  clean participants only when the field is absent.
\<close>

lemma convert_uses_is_shared:
  assumes "convertBackendExpenseToFrontend be = Inr e"
  shows "(is_shared (parsed_data be) = Some b \<longrightarrow> etype e = (if b then shared else personal))
       \<and> (is_shared (parsed_data be) = None \<longrightarrow>
            (\<exists>cs. cleanParticipantsOf (clean_participants (parsed_data be))
                     (participants (parsed_data be)) = Inr cs
                 \<and> etype e = (if length cs > 0 then shared else personal)))"
proof -
  from convert_result[OF assms] obtain cs where
    cs: "cleanParticipantsOf (clean_participants (parsed_data be))
           (participants (parsed_data be)) = Inr cs"
    and t: "etype e = (if (case is_shared (parsed_data be) of
                             Some b \<Rightarrow> b | None \<Rightarrow> length cs > 0)
                       then shared else personal)"
    by blast
  have explicit: "is_shared (parsed_data be) = Some b \<longrightarrow>
                    etype e = (if b then shared else personal)"
    using t by simp
  have absent: "is_shared (parsed_data be) = None \<longrightarrow>
                  etype e = (if length cs > 0 then shared else personal)"
    using t by simp
  show ?thesis using explicit absent cs by blast
qed

lemma convert_explicit_false:
  "\<exists>e. convertBackendExpenseToFrontend
          (stored_expense (raw_parse (Some [''Rohit'']) (Some False) (Some []) (Fin 100))) = Inr e
       \<and> etype e = personal \<and> members e = None"
proof -
  let ?be = "stored_expense (raw_parse (Some [''Rohit'']) (Some False) (Some []) (Fin 100))"
  have cs: "cleanParticipantsOf (clean_participants (parsed_data ?be))
              (participants (parsed_data ?be)) = Inr [''Rohit'']"
    by (simp add: stored_expense_def raw_parse_def cleanParticipantsOf_def)
  have li: "line_items (parsed_data ?be) = Some []"
    by (simp add: stored_expense_def raw_parse_def)
  have sh: "is_shared (parsed_data ?be) = Some False"
    by (simp add: stored_expense_def raw_parse_def)
  from convert_Inr[OF cs li] show ?thesis by (auto simp: sh)
qed

lemma parse_Rohit_Priya:
  "\<exists>e. parseExpenseFromText (response_with (Some [''Rohit'', ''Priya'']) None) ''Chai''
          ''2025-07-26T10:15:00'' = Inr e
       \<and> etype e = shared \<and> members e = Some [''You'', ''Rohit'', ''Priya'']"
proof -
  let ?be = "\<lparr>backend_id = 7, original_text = ''Chai'',
             parsed_data =
               \<lparr>participants = Some [], clean_participants = Some [''Rohit'', ''Priya''],
                is_shared = Some True, expense_type = Some shared, line_items = Some [],
                total_amount = Fin 100\<rparr>,
             created_at = ''2025-07-26T10:15:00''\<rparr>"
  have p: "parseExpenseFromText (response_with (Some [''Rohit'', ''Priya'']) None) ''Chai''
          ''2025-07-26T10:15:00'' = convertBackendExpenseToFrontend ?be"
    by (simp add: parseExpenseFromText_def response_with_def cleanParticipantsOf_def)
  have cs: "cleanParticipantsOf (clean_participants (parsed_data ?be))
              (participants (parsed_data ?be)) = Inr [''Rohit'', ''Priya'']"
    by (simp add: cleanParticipantsOf_def)
  have li: "line_items (parsed_data ?be) = Some []" by simp
  from convert_Inr[OF cs li] show ?thesis unfolding p by auto
qed

lemma parse_explicit_false:
  "\<exists>e. parseExpenseFromText (response_with (Some [''Rohit'']) (Some False)) ''Chai''
          ''2025-07-26T10:15:00'' = Inr e
       \<and> etype e = shared \<and> members e = Some [''You'', ''Rohit'']"
proof -
  let ?be = "\<lparr>backend_id = 7, original_text = ''Chai'',
             parsed_data =
               \<lparr>participants = Some [], clean_participants = Some [''Rohit''],
                is_shared = Some True, expense_type = Some shared, line_items = Some [],
                total_amount = Fin 100\<rparr>,
             created_at = ''2025-07-26T10:15:00''\<rparr>"
  have p: "parseExpenseFromText (response_with (Some [''Rohit'']) (Some False)) ''Chai''
          ''2025-07-26T10:15:00'' = convertBackendExpenseToFrontend ?be"
    by (simp add: parseExpenseFromText_def response_with_def cleanParticipantsOf_def)
  have cs: "cleanParticipantsOf (clean_participants (parsed_data ?be))
              (participants (parsed_data ?be)) = Inr [''Rohit'']"
    by (simp add: cleanParticipantsOf_def)
  have li: "line_items (parsed_data ?be) = Some []" by simp
  from convert_Inr[OF cs li] show ?thesis unfolding p by auto
qed

text \<open>
  Claim C5. On the path of a newly entered text, \<open>parseExpenseFromText\<close> builds the raw
  parse with \<open>response.is_shared || (clean participants exist)\<close>: a response that says
  \<open>is_shared: false\<close> and names the clean participant \<open>Rohit\<close> reaches the Canonicalizer
  as \<open>is_shared: true\<close>, and the expense is \<open>shared\<close> with the members \<open>You\<close> and \<open>Rohit\<close>.
  The same raw parse handed to \<open>convertBackendExpenseToFrontend\<close> directly is \<open>personal\<close>.
\<close>

theorem parseExpenseFromText_overrides_false:
  "resp_is_shared (response_with (Some [''Rohit'']) (Some False)) = Some False
   \<and> \<not> isl (parseExpenseFromText (response_with (Some [''Rohit'']) (Some False)) ''Chai''
              ''2025-07-26T10:15:00'')
   \<and> etype (projr (parseExpenseFromText (response_with (Some [''Rohit'']) (Some False)) ''Chai''
              ''2025-07-26T10:15:00'')) = shared
   \<and> etype (projr (convertBackendExpenseToFrontend
        (stored_expense (raw_parse (Some [''Rohit'']) (Some False) (Some []) (Fin 100)))))
       = personal"
proof -
  obtain e where e: "parseExpenseFromText (response_with (Some [''Rohit'']) (Some False)) ''Chai''
          ''2025-07-26T10:15:00'' = Inr e" "etype e = shared"
    using parse_explicit_false by blast
  obtain e' where e': "convertBackendExpenseToFrontend
          (stored_expense (raw_parse (Some [''Rohit'']) (Some False) (Some []) (Fin 100))) = Inr e'"
       "etype e' = personal"
    using convert_explicit_false by blast
  show ?thesis unfolding e(1) e'(1) using e(2) e'(2) by (simp add: response_with_def)
qed

end
